theory Spec2Isabelle
  imports Complex_Main
begin

section \<open>RUVA backend: values, documents and schemas\<close>

text \<open>
  The backend is a FastAPI application (\<^verbatim>\<open>main.py\<close>) over a document store, with its
  record shapes declared as pydantic models (\<^verbatim>\<open>schemas.py\<close>). Documents are Python
  dictionaries; they are modelled as association lists from field names to values, in
  the order in which \<^verbatim>\<open>model_dump\<close> lists the fields.

  The identifier that the store gives a document (a MongoDB \<^verbatim>\<open>ObjectId\<close>) is
  represented by the number of the insertion that produced it.
  A \<^verbatim>\<open>float\<close> is represented by the real number it denotes: the only operation the
  program applies to one is the comparison with the integer bounds of
  \<^verbatim>\<open>Field(ge=.., le=..)\<close>, which is exact on finite floats.
\<close>

datatype val =
    VNone
  | VStr string
  | VInt int
  | VFloat real
  | VBool bool
  | VList "string list"
  | VObjectId nat

type_synonym doc = "(string \<times> val) list"

text \<open>\<^verbatim>\<open>d.get(k)\<close>: the value under \<open>k\<close>, \<^verbatim>\<open>None\<close> when the key is absent.\<close>

definition dict_get :: "doc \<Rightarrow> string \<Rightarrow> val" where
  "dict_get d k = (case map_of d k of None \<Rightarrow> VNone | Some v \<Rightarrow> v)"

text \<open>\<^verbatim>\<open>sep.join(xs)\<close> on a list of strings.\<close>

fun join :: "string \<Rightarrow> string list \<Rightarrow> string" where
  "join sep [] = []"
| "join sep [x] = x"
| "join sep (x # y # ys) = x @ sep @ join sep (y # ys)"

text \<open>
  What a handler or a generator can raise: FastAPI's \<^verbatim>\<open>HTTPException\<close> with its status
  code and detail, a plain \<^verbatim>\<open>Exception\<close> with its message (the failure of a store
  operation, when nothing catches it), the \<^verbatim>\<open>KeyError\<close> of \<^verbatim>\<open>data["user_id"]\<close>, and
  the validation error of a pydantic model with the names of the offending fields.
\<close>

datatype error =
    HTTPException nat string
  | Exception string
  | KeyError string
  | ValidationError "string list"

subsection \<open>The schemas of \<^verbatim>\<open>schemas.py\<close>\<close>

record User =
  email :: string
  password_hash :: string
  is_guest :: bool
  plan :: string

record UserInput =
  user_id :: string
  face_photo_url :: "string option"
  height_cm :: "int option"
  weight_kg :: "real option"
  age :: "int option"
  goals :: "string option"
  style_vibe :: "string option"

record AnalysisSummary =
  user_id :: string
  face_summary :: string
  physique_summary :: string
  style_summary :: string
  outfit_summary :: string

record LookmaxxingDetail =
  user_id :: string
  face_shape :: string
  strong_features :: "string list"
  weak_features :: "string list"
  grooming :: "string list"
  hairstyle :: "string list"
  accessories :: "string list"

record PhysiquePlan =
  user_id :: string
  body_type :: string
  workout_7_day :: "string list"
  posture_cues :: "string list"
  diet_notes :: "string list"

record StylingPlan =
  user_id :: string
  daily_outfits :: "string list"
  colours :: "string list"
  wardrobe_essentials :: "string list"
  hairstyle_synergy :: "string list"

record GlowUpPlan =
  user_id :: string
  week_by_week :: "string list"

text \<open>
  \<^verbatim>\<open>Field(None, ge=lo, le=hi)\<close> on an optional number: an absent value passes, a present
  one must lie in the closed interval.
\<close>

definition ge_le :: "'a::linorder \<Rightarrow> 'a \<Rightarrow> 'a option \<Rightarrow> bool" where
  "ge_le lo hi v = (case v of None \<Rightarrow> True | Some x \<Rightarrow> lo \<le> x \<and> x \<le> hi)"

text \<open>
  Validation of a \<^verbatim>\<open>UserInput\<close> body whose fields have already been parsed to their
  types: the names of the fields that violate their constraint, in declaration order.
\<close>

definition UserInput_errors :: "UserInput \<Rightarrow> string list" where
  "UserInput_errors d =
     (if ge_le 100 250 (height_cm d) then [] else [''height_cm'']) @
     (if ge_le 30 250 (weight_kg d) then [] else [''weight_kg'']) @
     (if ge_le 13 100 (age d) then [] else [''age''])"

definition UserInput_validate :: "UserInput \<Rightarrow> error + UserInput" where
  "UserInput_validate d =
     (if UserInput_errors d = [] then Inr d else Inl (ValidationError (UserInput_errors d)))"

subsection \<open>\<^verbatim>\<open>model_dump\<close> of each schema\<close>

definition opt :: "('a \<Rightarrow> val) \<Rightarrow> 'a option \<Rightarrow> val" where
  "opt f v = (case v of None \<Rightarrow> VNone | Some x \<Rightarrow> f x)"

definition User_dump :: "User \<Rightarrow> doc" where
  "User_dump u =
     [(''email'', VStr (email u)), (''password_hash'', VStr (password_hash u)),
      (''is_guest'', VBool (is_guest u)), (''plan'', VStr (plan u))]"

definition UserInput_dump :: "UserInput \<Rightarrow> doc" where
  "UserInput_dump d =
     [(''user_id'', VStr (UserInput.user_id d)),
      (''face_photo_url'', opt VStr (face_photo_url d)),
      (''height_cm'', opt VInt (height_cm d)),
      (''weight_kg'', opt VFloat (weight_kg d)),
      (''age'', opt VInt (age d)),
      (''goals'', opt VStr (goals d)),
      (''style_vibe'', opt VStr (style_vibe d))]"

definition AnalysisSummary_dump :: "AnalysisSummary \<Rightarrow> doc" where
  "AnalysisSummary_dump a =
     [(''user_id'', VStr (AnalysisSummary.user_id a)),
      (''face_summary'', VStr (face_summary a)),
      (''physique_summary'', VStr (physique_summary a)),
      (''style_summary'', VStr (style_summary a)),
      (''outfit_summary'', VStr (outfit_summary a))]"

definition LookmaxxingDetail_dump :: "LookmaxxingDetail \<Rightarrow> doc" where
  "LookmaxxingDetail_dump f =
     [(''user_id'', VStr (LookmaxxingDetail.user_id f)),
      (''face_shape'', VStr (face_shape f)),
      (''strong_features'', VList (strong_features f)),
      (''weak_features'', VList (weak_features f)),
      (''grooming'', VList (grooming f)),
      (''hairstyle'', VList (hairstyle f)),
      (''accessories'', VList (accessories f))]"

definition PhysiquePlan_dump :: "PhysiquePlan \<Rightarrow> doc" where
  "PhysiquePlan_dump p =
     [(''user_id'', VStr (PhysiquePlan.user_id p)),
      (''body_type'', VStr (body_type p)),
      (''workout_7_day'', VList (workout_7_day p)),
      (''posture_cues'', VList (posture_cues p)),
      (''diet_notes'', VList (diet_notes p))]"

definition StylingPlan_dump :: "StylingPlan \<Rightarrow> doc" where
  "StylingPlan_dump t =
     [(''user_id'', VStr (StylingPlan.user_id t)),
      (''daily_outfits'', VList (daily_outfits t)),
      (''colours'', VList (colours t)),
      (''wardrobe_essentials'', VList (wardrobe_essentials t)),
      (''hairstyle_synergy'', VList (hairstyle_synergy t))]"

definition GlowUpPlan_dump :: "GlowUpPlan \<Rightarrow> doc" where
  "GlowUpPlan_dump g =
     [(''user_id'', VStr (GlowUpPlan.user_id g)),
      (''week_by_week'', VList (week_by_week g))]"

section \<open>The plan generators\<close>

text \<open>
  Each generator reads \<^verbatim>\<open>data["user_id"]\<close> (a \<^verbatim>\<open>KeyError\<close> when the key is absent) and
  builds a schema instance whose \<^verbatim>\<open>user_id: str\<close> field rejects anything that is not a
  string.
\<close>

definition get_user_id :: "doc \<Rightarrow> error + string" where
  "get_user_id data =
     (case map_of data ''user_id'' of
        None \<Rightarrow> Inl (KeyError ''user_id'')
      | Some (VStr u) \<Rightarrow> Inr u
      | Some _ \<Rightarrow> Inl (ValidationError [''user_id'']))"

definition make_face_analysis :: "doc \<Rightarrow> error + LookmaxxingDetail" where
  "make_face_analysis data =
     (case get_user_id data of
        Inl e \<Rightarrow> Inl e
      | Inr u \<Rightarrow> Inr \<lparr>
          LookmaxxingDetail.user_id = u,
          face_shape = ''oval'',
          strong_features = [''defined jawline''],
          weak_features = [''under-eye puffiness''],
          grooming = [''weekly exfoliation'', ''SPF 50 daily''],
          hairstyle = [''medium length textured crop''],
          accessories = [''thin metal frames'', ''minimalist studs'']\<rparr>)"

definition make_physique_plan :: "doc \<Rightarrow> error + PhysiquePlan" where
  "make_physique_plan data =
     (case get_user_id data of
        Inl e \<Rightarrow> Inl e
      | Inr u \<Rightarrow> Inr \<lparr>
          PhysiquePlan.user_id = u,
          body_type = ''athletic'',
          workout_7_day =
            [''Push strength'',
             ''Pull strength'',
             ''Legs + core'',
             ''Active recovery (walk + mobility)'',
             ''Upper hypertrophy'',
             ''Lower hypertrophy'',
             ''Rest + stretch''],
          posture_cues = [''neck long'', ''ribs down'', ''glutes on''],
          diet_notes = [''high protein'', ''2L water'', ''500 kcal deficit (if fat loss)'']\<rparr>)"

definition make_styling_plan :: "doc \<Rightarrow> error + StylingPlan" where
  "make_styling_plan data =
     (case get_user_id data of
        Inl e \<Rightarrow> Inl e
      | Inr u \<Rightarrow> Inr \<lparr>
          StylingPlan.user_id = u,
          daily_outfits = [''monochrome black smart-casual'', ''cream knit + tapered chinos''],
          colours = [''cream'', ''black'', ''light gold''],
          wardrobe_essentials = [''white sneakers'', ''dark denim'', ''oxford shirt''],
          hairstyle_synergy = [''texture complements jawline'']\<rparr>)"

definition make_glow_up :: "doc \<Rightarrow> error + GlowUpPlan" where
  "make_glow_up data =
     (case get_user_id data of
        Inl e \<Rightarrow> Inl e
      | Inr u \<Rightarrow> Inr \<lparr>
          GlowUpPlan.user_id = u,
          week_by_week =
            [''Week 1: skin baseline + haircut'',
             ''Week 2: posture daily 10m + wardrobe audit'',
             ''Week 3: gym routine locked'',
             ''Week 4: social refresh (bio/photos)'',
             ''Weeks 5-12: progressions + photos'']\<rparr>)"

definition make_summary ::
  "LookmaxxingDetail \<Rightarrow> PhysiquePlan \<Rightarrow> StylingPlan \<Rightarrow> AnalysisSummary" where
  "make_summary face phys style = \<lparr>
     AnalysisSummary.user_id = LookmaxxingDetail.user_id face,
     face_summary = ''Face shape '' @ face_shape face @ ''; groom: '' @ join '', '' (grooming face),
     physique_summary = ''Body '' @ body_type phys @ ''; posture: '' @ join '', '' (posture_cues phys),
     style_summary = ''Colours: '' @ join '', '' (colours style),
     outfit_summary = ''Outfits: '' @ join '', '' (daily_outfits style)\<rparr>"


section \<open>The document store\<close>

text \<open>
  \<^verbatim>\<open>str(x)\<close> for the values the program renders: \<^verbatim>\<open>main.py\<close> applies it to
  \<^verbatim>\<open>user.get("_id")\<close> only. An \<^verbatim>\<open>ObjectId\<close> is rendered in hexadecimal; numbers and
  lists are never rendered and have no equation.
\<close>

definition hex_digit :: "nat \<Rightarrow> char" where
  "hex_digit d = ''0123456789abcdef'' ! d"

fun hex :: "nat \<Rightarrow> string" where
  "hex n = (if n < 16 then [hex_digit n] else hex (n div 16) @ [hex_digit (n mod 16)])"

declare hex.simps [simp del]

fun py_str :: "val \<Rightarrow> string" where
  "py_str VNone = ''None''"
| "py_str (VStr s) = s"
| "py_str (VBool b) = (if b then ''True'' else ''False'')"
| "py_str (VObjectId n) = hex n"

text \<open>
  Modelled from the spec: \<^verbatim>\<open>database.py\<close> (\<^verbatim>\<open>create_document\<close>, \<^verbatim>\<open>get_documents\<close> and
  the connection \<^verbatim>\<open>db\<close>) is not among the sources. By section 4.1 of the specification,
  \<^verbatim>\<open>create_document(collection, record)\<close> serialises the record, inserts it and returns
  the string form of a newly generated unique identifier; \<^verbatim>\<open>get_documents(collection,
  filter, limit)\<close> returns the documents whose fields equal the filter's values, at most
  \<^verbatim>\<open>limit\<close> of them, in the store's natural (insertion) order; either fails when the
  connection, the query or the insert cannot complete.

  The state of the store is the content of each collection in insertion order, the
  number of the next identifier, and the outcome of the operations to come: the head of
  \<open>faults\<close> decides the next operation, \<open>Some msg\<close> making it raise \<^verbatim>\<open>Exception(msg)\<close>;
  once the list is used up every operation succeeds.
\<close>

record store =
  colls :: "string \<Rightarrow> doc list"
  next_id :: nat
  faults :: "string option list"

definition store_fault :: "store \<Rightarrow> string option" where
  "store_fault s = (case faults s of Some msg # _ \<Rightarrow> Some msg | _ \<Rightarrow> None)"

definition tick :: "store \<Rightarrow> store" where
  "tick s = s\<lparr>faults := tl (faults s)\<rparr>"

definition matches :: "doc \<Rightarrow> doc \<Rightarrow> bool" where
  "matches flt d = list_all (\<lambda>(k, v). map_of d k = Some v) flt"

text \<open>The result of a store operation: \<open>Inl msg\<close> when it raised \<^verbatim>\<open>Exception(msg)\<close>.\<close>

definition get_documents ::
  "string \<Rightarrow> doc \<Rightarrow> nat \<Rightarrow> store \<Rightarrow> (string + doc list) \<times> store" where
  "get_documents collection flt limit s =
     (case store_fault s of
        Some msg \<Rightarrow> (Inl msg, tick s)
      | None \<Rightarrow> (Inr (take limit (filter (matches flt) (colls s collection))), tick s))"

text \<open>The insert itself: the document gets the next identifier and goes last.\<close>

definition insert_one :: "string \<Rightarrow> doc \<Rightarrow> store \<Rightarrow> store" where
  "insert_one collection data s =
     s\<lparr>colls := (colls s)
          (collection := colls s collection @ [(''_id'', VObjectId (next_id s)) # data]),
       next_id := Suc (next_id s)\<rparr>"

definition create_document ::
  "string \<Rightarrow> doc \<Rightarrow> store \<Rightarrow> (string + string) \<times> store" where
  "create_document collection data s =
     (case store_fault s of
        Some msg \<Rightarrow> (Inl msg, tick s)
      | None \<Rightarrow>
          (Inr (py_str (VObjectId (next_id s))), insert_one collection data (tick s)))"

section \<open>The handlers of \<^verbatim>\<open>main.py\<close>\<close>

text \<open>
  A handler takes its validated payload and the store and returns the store together
  with either its JSON response or the exception that left it.
\<close>

record SignupRequest =
  email :: string
  password :: string

record LoginRequest =
  email :: string
  password :: string

record GuestLoginRequest =
  email :: string

record WorkflowRequest =
  user_id :: string

text \<open>
  \<^verbatim>\<open>signup\<close>, lines 46 to 51: the guarded lookup and the conflict check. It is kept
  apart from the insert of lines 53 to 55 because the two are separate store operations.
\<close>

definition signup_lookup :: "SignupRequest \<Rightarrow> store \<Rightarrow> (error + unit) \<times> store" where
  "signup_lookup payload s =
     (case get_documents ''user'' [(''email'', VStr (SignupRequest.email payload))] 1 s of
        (Inl e, s') \<Rightarrow> (Inl (HTTPException 500 e), s')
      | (Inr existing, s') \<Rightarrow>
          if existing \<noteq> [] then (Inl (HTTPException 409 ''Email already exists''), s')
          else (Inr (), s'))"

definition signup_insert :: "SignupRequest \<Rightarrow> store \<Rightarrow> (error + doc) \<times> store" where
  "signup_insert payload s =
     (let user = \<lparr>User.email = SignupRequest.email payload,
                  password_hash = ''hash:'' @ SignupRequest.password payload,
                  is_guest = False, plan = ''free''\<rparr>
      in case create_document ''user'' (User_dump user) s of
           (Inl e, s') \<Rightarrow> (Inl (Exception e), s')
         | (Inr uid, s') \<Rightarrow>
             (Inr [(''user_id'', VStr uid),
                   (''email'', VStr (SignupRequest.email payload))], s'))"

definition signup :: "SignupRequest \<Rightarrow> store \<Rightarrow> (error + doc) \<times> store" where
  "signup payload s =
     (case signup_lookup payload s of
        (Inl e, s') \<Rightarrow> (Inl e, s')
      | (Inr _, s') \<Rightarrow> signup_insert payload s')"

definition login :: "LoginRequest \<Rightarrow> store \<Rightarrow> (error + doc) \<times> store" where
  "login payload s =
     (case get_documents ''user'' [(''email'', VStr (LoginRequest.email payload))] 1 s of
        (Inl e, s') \<Rightarrow> (Inl (HTTPException 500 e), s')
      | (Inr users, s') \<Rightarrow>
          (case users of
             [] \<Rightarrow> (Inl (HTTPException 404 ''User not found''), s')
           | user # _ \<Rightarrow>
               if dict_get user ''password_hash'' \<noteq> VStr (''hash:'' @ LoginRequest.password payload)
               then (Inl (HTTPException 401 ''Invalid credentials''), s')
               else (Inr [(''user_id'', VStr (py_str (dict_get user ''_id''))),
                          (''email'', dict_get user ''email'')], s')))"

definition guest_login :: "GuestLoginRequest \<Rightarrow> store \<Rightarrow> (error + doc) \<times> store" where
  "guest_login payload s =
     (let user = \<lparr>User.email = GuestLoginRequest.email payload,
                  password_hash = ''guest'', is_guest = True, plan = ''free''\<rparr>
      in case create_document ''user'' (User_dump user) s of
           (Inl e, s') \<Rightarrow> (Inl (Exception e), s')
         | (Inr uid, s') \<Rightarrow>
             (Inr [(''user_id'', VStr uid),
                   (''email'', VStr (GuestLoginRequest.email payload)),
                   (''guest'', VBool True)], s'))"

definition save_user_input :: "UserInput \<Rightarrow> store \<Rightarrow> (error + doc) \<times> store" where
  "save_user_input data s =
     (case create_document ''userinput'' (UserInput_dump data) s of
        (Inl e, s') \<Rightarrow> (Inl (Exception e), s')
      | (Inr doc_id, s') \<Rightarrow> (Inr [(''input_id'', VStr doc_id)], s'))"

text \<open>
  The route \<^verbatim>\<open>POST /input\<close>: FastAPI validates the body against \<^verbatim>\<open>UserInput\<close> and calls
  the handler only with a valid instance.
\<close>

definition post_input :: "UserInput \<Rightarrow> store \<Rightarrow> (error + doc) \<times> store" where
  "post_input body s =
     (case UserInput_validate body of
        Inl e \<Rightarrow> (Inl e, s)
      | Inr data \<Rightarrow> save_user_input data s)"

text \<open>
  \<^verbatim>\<open>run_workflow\<close>, lines 156 to 160: the guarded lookup of one stored input of the user
  and the fallback to the bare record.
\<close>

definition workflow_base :: "WorkflowRequest \<Rightarrow> store \<Rightarrow> (error + doc) \<times> store" where
  "workflow_base req s =
     (case get_documents ''userinput'' [(''user_id'', VStr (WorkflowRequest.user_id req))] 1 s of
        (Inl e, s') \<Rightarrow> (Inl (HTTPException 500 e), s')
      | (Inr inputs, s') \<Rightarrow>
          (Inr (case inputs of
                  [] \<Rightarrow> [(''user_id'', VStr (WorkflowRequest.user_id req))]
                | d # _ \<Rightarrow> d), s'))"

text \<open>
  The rest of \<^verbatim>\<open>run_workflow\<close>. The five inserts follow one another outside any
  \<^verbatim>\<open>try\<close>, so the first that raises ends the handler with that exception.
\<close>

definition run_workflow ::
  "WorkflowRequest \<Rightarrow> store \<Rightarrow> (error + (string \<times> doc) list) \<times> store" where
  "run_workflow req s =
     (case workflow_base req s of
        (Inl e, s0) \<Rightarrow> (Inl e, s0)
      | (Inr base, s0) \<Rightarrow>
      case make_face_analysis base of Inl e \<Rightarrow> (Inl e, s0) | Inr face \<Rightarrow>
      case make_physique_plan base of Inl e \<Rightarrow> (Inl e, s0) | Inr phys \<Rightarrow>
      case make_styling_plan base of Inl e \<Rightarrow> (Inl e, s0) | Inr style \<Rightarrow>
      case make_glow_up base of Inl e \<Rightarrow> (Inl e, s0) | Inr glow \<Rightarrow>
     (let summary = make_summary face phys style
      in
      case create_document ''lookmaxxingdetail'' (LookmaxxingDetail_dump face) s0 of
        (Inl e, s1) \<Rightarrow> (Inl (Exception e), s1) | (Inr _, s1) \<Rightarrow>
      case create_document ''physiqueplan'' (PhysiquePlan_dump phys) s1 of
        (Inl e, s2) \<Rightarrow> (Inl (Exception e), s2) | (Inr _, s2) \<Rightarrow>
      case create_document ''stylingplan'' (StylingPlan_dump style) s2 of
        (Inl e, s3) \<Rightarrow> (Inl (Exception e), s3) | (Inr _, s3) \<Rightarrow>
      case create_document ''glowupplan'' (GlowUpPlan_dump glow) s3 of
        (Inl e, s4) \<Rightarrow> (Inl (Exception e), s4) | (Inr _, s4) \<Rightarrow>
      case create_document ''analysissummary'' (AnalysisSummary_dump summary) s4 of
        (Inl e, s5) \<Rightarrow> (Inl (Exception e), s5) | (Inr _, s5) \<Rightarrow>
        (Inr [(''summary'', AnalysisSummary_dump summary),
              (''face'', LookmaxxingDetail_dump face),
              (''physique'', PhysiquePlan_dump phys),
              (''styling'', StylingPlan_dump style),
              (''glow'', GlowUpPlan_dump glow)], s5)))"

section \<open>Notions used to state the properties\<close>

text \<open>The store before any request, with the outcomes \<open>fs\<close> of its operations to come.\<close>

definition empty_store :: "string option list \<Rightarrow> store" where
  "empty_store fs = \<lparr>colls = (\<lambda>_. []), next_id = 0, faults = fs\<rparr>"

text \<open>The next \<open>k\<close> store operations succeed.\<close>

definition available :: "nat \<Rightarrow> store \<Rightarrow> bool" where
  "available k s = list_all (\<lambda>f. f = None) (take k (faults s))"

text \<open>The store after the successful inserts of the given documents, in order.\<close>

fun persist :: "(string \<times> doc) list \<Rightarrow> store \<Rightarrow> store" where
  "persist [] s = s"
| "persist ((c, d) # r) s = persist r (insert_one c d (tick s))"

text \<open>Successive calls of \<^verbatim>\<open>create_document\<close> outside any \<^verbatim>\<open>try\<close>: the first failure ends them.\<close>

fun create_all :: "(string \<times> doc) list \<Rightarrow> store \<Rightarrow> (error + unit) \<times> store" where
  "create_all [] s = (Inr (), s)"
| "create_all ((c, d) # r) s =
     (case create_document c d s of
        (Inl e, s') \<Rightarrow> (Inl (Exception e), s')
      | (Inr _, s') \<Rightarrow> create_all r s')"

text \<open>
  The five documents of a workflow run for a user, paired with their collections in the
  order in which \<^verbatim>\<open>run_workflow\<close> issues the inserts: what the four generators and the
  composer make of the bare record \<^verbatim>\<open>{"user_id": u}\<close>.
\<close>

definition workflow_docs :: "string \<Rightarrow> (string \<times> doc) list" where
  "workflow_docs u =
     (case (make_face_analysis [(''user_id'', VStr u)],
            make_physique_plan [(''user_id'', VStr u)],
            make_styling_plan [(''user_id'', VStr u)],
            make_glow_up [(''user_id'', VStr u)]) of
        (Inr face, Inr phys, Inr style, Inr glow) \<Rightarrow>
          [(''lookmaxxingdetail'', LookmaxxingDetail_dump face),
           (''physiqueplan'', PhysiquePlan_dump phys),
           (''stylingplan'', StylingPlan_dump style),
           (''glowupplan'', GlowUpPlan_dump glow),
           (''analysissummary'', AnalysisSummary_dump (make_summary face phys style))]
      | _ \<Rightarrow> [])"

text \<open>
  Reachable states of the user store. FastAPI runs the \<^verbatim>\<open>def\<close> handlers in a pool of
  threads, so requests interleave at their store operations: every store operation is a
  step of its own, and \<^verbatim>\<open>signup\<close>, the one handler with two of them on the user
  collection, may have passed its lookup without having inserted yet. The second
  component lists those pending signups.
\<close>

inductive reach :: "store \<Rightarrow> SignupRequest list \<Rightarrow> bool" where
  start: "reach (empty_store fs) []"
| guest: "reach s pend \<Longrightarrow> reach (snd (guest_login p s)) pend"
| logged: "reach s pend \<Longrightarrow> reach (snd (login q s)) pend"
| signup_passed: "reach s pend \<Longrightarrow> signup_lookup p' s = (Inr (), s') \<Longrightarrow> reach s' (p' # pend)"
| signup_refused: "reach s pend \<Longrightarrow> signup_lookup p' s = (Inl e, s') \<Longrightarrow> reach s' pend"
| signup_inserted:
    "reach s pend \<Longrightarrow> p' \<in> set pend \<Longrightarrow> reach (snd (signup_insert p' s)) (remove1 p' pend)"

section \<open>Properties of the generators and of the summary\<close>

text \<open>
  C9. The four plan generators are functions of their argument alone: they neither take
  nor return the store. Two input records that carry the same \<^verbatim>\<open>user_id\<close> give the
  same output, whatever their other fields (\<^verbatim>\<open>face_photo_url\<close>, \<^verbatim>\<open>height_cm\<close>,
  \<^verbatim>\<open>weight_kg\<close>, \<^verbatim>\<open>age\<close>, \<^verbatim>\<open>goals\<close>, \<^verbatim>\<open>style_vibe\<close>) hold.
\<close>

theorem generators_depend_on_user_id_only:
  assumes "map_of d1 ''user_id'' = map_of d2 ''user_id''"
  shows "make_face_analysis d1 = make_face_analysis d2
       \<and> make_physique_plan d1 = make_physique_plan d2
       \<and> make_styling_plan d1 = make_styling_plan d2
       \<and> make_glow_up d1 = make_glow_up d2"
  using assms
  by (simp add: get_user_id_def make_face_analysis_def make_physique_plan_def
      make_styling_plan_def make_glow_up_def)

theorem generators_depend_on_user_id_only_witness:
  "make_face_analysis [(''user_id'', VStr ''u1'')] =
     make_face_analysis (UserInput_dump \<lparr>UserInput.user_id = ''u1'',
       face_photo_url = Some ''http://x/p.png'', height_cm = Some 180, weight_kg = Some 75,
       age = Some 30, goals = Some ''lean'', style_vibe = Some ''classic''\<rparr>)
   \<and> make_physique_plan [(''user_id'', VStr ''u1'')] =
     make_physique_plan (UserInput_dump \<lparr>UserInput.user_id = ''u1'',
       face_photo_url = Some ''http://x/p.png'', height_cm = Some 180, weight_kg = Some 75,
       age = Some 30, goals = Some ''lean'', style_vibe = Some ''classic''\<rparr>)
   \<and> make_styling_plan [(''user_id'', VStr ''u1'')] =
     make_styling_plan (UserInput_dump \<lparr>UserInput.user_id = ''u1'',
       face_photo_url = Some ''http://x/p.png'', height_cm = Some 180, weight_kg = Some 75,
       age = Some 30, goals = Some ''lean'', style_vibe = Some ''classic''\<rparr>)
   \<and> make_glow_up [(''user_id'', VStr ''u1'')] =
     make_glow_up (UserInput_dump \<lparr>UserInput.user_id = ''u1'',
       face_photo_url = Some ''http://x/p.png'', height_cm = Some 180, weight_kg = Some 75,
       age = Some 30, goals = Some ''lean'', style_vibe = Some ''classic''\<rparr>)"
proof -
  have h: "map_of [(''user_id'', VStr ''u1'')] ''user_id'' =
      map_of (UserInput_dump \<lparr>UserInput.user_id = ''u1'',
       face_photo_url = Some ''http://x/p.png'', height_cm = Some 180, weight_kg = Some 75,
       age = Some 30, goals = Some ''lean'', style_vibe = Some ''classic''\<rparr>) ''user_id''"
    by (simp add: UserInput_dump_def)
  show ?thesis using generators_depend_on_user_id_only [OF h] .
qed


section \<open>Properties of input validation\<close>

lemma ge_le_iff: "ge_le lo hi v = (\<forall>x. v = Some x \<longrightarrow> lo \<le> x \<and> x \<le> hi)"
  by (cases v) (simp_all add: ge_le_def)

lemma UserInput_validate_iff:
  "(UserInput_validate d = Inr d) =
     ((\<forall>h. height_cm d = Some h \<longrightarrow> 100 \<le> h \<and> h \<le> 250)
    \<and> (\<forall>w. weight_kg d = Some w \<longrightarrow> 30 \<le> w \<and> w \<le> 250)
    \<and> (\<forall>a. age d = Some a \<longrightarrow> 13 \<le> a \<and> a \<le> 100))"
  unfolding UserInput_validate_def UserInput_errors_def ge_le_iff by auto

lemma post_input_rejects:
  "UserInput_validate d \<noteq> Inr d \<Longrightarrow>
     post_input d s = (Inl (ValidationError (UserInput_errors d)), s) \<and> UserInput_errors d \<noteq> []"
  by (auto simp: post_input_def UserInput_validate_def split: if_splits)

lemma post_input_accepts:
  "UserInput_validate d = Inr d \<Longrightarrow> post_input d s = save_user_input d s"
  by (simp add: post_input_def)

text \<open>
  C3. A \<^verbatim>\<open>UserInput\<close> body is accepted exactly when each supplied number lies in its
  closed range: \<^verbatim>\<open>height_cm\<close> in 100..250, \<^verbatim>\<open>weight_kg\<close> in 30..250, \<^verbatim>\<open>age\<close> in 13..100.
  A rejected body ends the request with a validation error naming the offending fields
  and leaves the store as it was, no operation of it having run; an accepted one
  reaches the handler. At the bounds: 99 is rejected for the height, and 100, 250, 30,
  13 and 100 are accepted where they are the lower or upper bound.
\<close>

theorem UserInput_ranges:
  "(UserInput_validate d = Inr d) =
     ((\<forall>h. height_cm d = Some h \<longrightarrow> 100 \<le> h \<and> h \<le> 250)
    \<and> (\<forall>w. weight_kg d = Some w \<longrightarrow> 30 \<le> w \<and> w \<le> 250)
    \<and> (\<forall>a. age d = Some a \<longrightarrow> 13 \<le> a \<and> a \<le> 100))
   \<and> (UserInput_validate d \<noteq> Inr d \<longrightarrow>
        post_input d s = (Inl (ValidationError (UserInput_errors d)), s)
        \<and> UserInput_errors d \<noteq> [])
   \<and> (UserInput_validate d = Inr d \<longrightarrow> post_input d s = save_user_input d s)
   \<and> UserInput_validate (d\<lparr>height_cm := Some 99, weight_kg := None, age := None\<rparr>)
        = Inl (ValidationError [''height_cm''])
   \<and> UserInput_validate (d\<lparr>height_cm := Some 100, weight_kg := Some 30, age := Some 13\<rparr>)
        = Inr (d\<lparr>height_cm := Some 100, weight_kg := Some 30, age := Some 13\<rparr>)
   \<and> UserInput_validate (d\<lparr>height_cm := Some 250, weight_kg := Some 250, age := Some 100\<rparr>)
        = Inr (d\<lparr>height_cm := Some 250, weight_kg := Some 250, age := Some 100\<rparr>)
   \<and> UserInput_validate (d\<lparr>height_cm := Some 251, weight_kg := Some 251, age := Some 101\<rparr>)
        = Inl (ValidationError [''height_cm'', ''weight_kg'', ''age''])
   \<and> UserInput_validate (d\<lparr>height_cm := None, weight_kg := Some (299 / 10), age := Some 12\<rparr>)
        = Inl (ValidationError [''weight_kg'', ''age''])"
proof -
  have "UserInput_validate (d\<lparr>height_cm := Some 99, weight_kg := None, age := None\<rparr>)
        = Inl (ValidationError [''height_cm''])"
    by (simp add: UserInput_validate_def UserInput_errors_def ge_le_def)
  moreover have "UserInput_validate (d\<lparr>height_cm := Some 100, weight_kg := Some 30, age := Some 13\<rparr>)
        = Inr (d\<lparr>height_cm := Some 100, weight_kg := Some 30, age := Some 13\<rparr>)"
    by (simp add: UserInput_validate_def UserInput_errors_def ge_le_def)
  moreover have "UserInput_validate (d\<lparr>height_cm := Some 250, weight_kg := Some 250, age := Some 100\<rparr>)
        = Inr (d\<lparr>height_cm := Some 250, weight_kg := Some 250, age := Some 100\<rparr>)"
    by (simp add: UserInput_validate_def UserInput_errors_def ge_le_def)
  moreover have "UserInput_validate (d\<lparr>height_cm := Some 251, weight_kg := Some 251, age := Some 101\<rparr>)
        = Inl (ValidationError [''height_cm'', ''weight_kg'', ''age''])"
    by (simp add: UserInput_validate_def UserInput_errors_def ge_le_def)
  moreover have "UserInput_validate (d\<lparr>height_cm := None, weight_kg := Some (299 / 10), age := Some 12\<rparr>)
        = Inl (ValidationError [''weight_kg'', ''age''])"
    by (simp add: UserInput_validate_def UserInput_errors_def ge_le_def)
  ultimately show ?thesis
    using UserInput_validate_iff [of d] post_input_rejects [of d s] post_input_accepts [of d s]
    by blast
qed

theorem UserInput_ranges_witness:
  "UserInput_validate \<lparr>UserInput.user_id = ''u1'', face_photo_url = None, height_cm = Some 99,
      weight_kg = Some 70, age = Some 13, goals = None, style_vibe = None\<rparr>
     \<noteq> Inr \<lparr>UserInput.user_id = ''u1'', face_photo_url = None, height_cm = Some 99,
      weight_kg = Some 70, age = Some 13, goals = None, style_vibe = None\<rparr>
   \<and> post_input \<lparr>UserInput.user_id = ''u1'', face_photo_url = None, height_cm = Some 99,
      weight_kg = Some 70, age = Some 13, goals = None, style_vibe = None\<rparr>
      (empty_store [Some ''down''])
     = (Inl (ValidationError [''height_cm'']), empty_store [Some ''down''])
   \<and> UserInput_validate \<lparr>UserInput.user_id = ''u1'', face_photo_url = None, height_cm = Some 100,
      weight_kg = Some 70, age = Some 100, goals = None, style_vibe = None\<rparr>
     = Inr \<lparr>UserInput.user_id = ''u1'', face_photo_url = None, height_cm = Some 100,
      weight_kg = Some 70, age = Some 100, goals = None, style_vibe = None\<rparr>
   \<and> post_input \<lparr>UserInput.user_id = ''u1'', face_photo_url = None, height_cm = Some 100,
      weight_kg = Some 70, age = Some 100, goals = None, style_vibe = None\<rparr> (empty_store [])
     = save_user_input \<lparr>UserInput.user_id = ''u1'', face_photo_url = None, height_cm = Some 100,
      weight_kg = Some 70, age = Some 100, goals = None, style_vibe = None\<rparr> (empty_store [])"
  using UserInput_ranges [of "\<lparr>UserInput.user_id = ''u1'', face_photo_url = None, height_cm = Some 99,
      weight_kg = Some 70, age = Some 13, goals = None, style_vibe = None\<rparr>" "empty_store [Some ''down'']"]
    UserInput_ranges [of "\<lparr>UserInput.user_id = ''u1'', face_photo_url = None, height_cm = Some 100,
      weight_kg = Some 70, age = Some 100, goals = None, style_vibe = None\<rparr>" "empty_store []"]
  by (simp add: UserInput_errors_def ge_le_def)

section \<open>Facts about the store\<close>

lemma hex_digit_inj: "a < 16 \<Longrightarrow> b < 16 \<Longrightarrow> hex_digit a = hex_digit b \<Longrightarrow> a = b"
proof -
  assume a: "a < 16" and b: "b < 16" and e: "hex_digit a = hex_digit b"
  have d: "distinct ''0123456789abcdef''" by simp
  have l: "length ''0123456789abcdef'' = 16" by simp
  from e show "a = b"
    unfolding hex_digit_def using nth_eq_iff_index_eq [OF d] a b l by metis
qed

lemma hex_not_Nil: "hex n \<noteq> []"
  by (subst hex.simps) simp

text \<open>Distinct identifiers have distinct string forms.\<close>

lemma hex_inj: "hex n = hex m \<Longrightarrow> n = m"
proof (induction n arbitrary: m rule: hex.induct)
  case (1 n)
  show ?case
  proof (cases "n < 16")
    case True
    then have n: "hex n = [hex_digit n]" by (subst hex.simps) simp
    have m: "m < 16"
    proof (rule ccontr)
      assume "\<not> m < 16"
      then have "hex m = hex (m div 16) @ [hex_digit (m mod 16)]" by (subst hex.simps) simp
      with n "1.prems" hex_not_Nil [of "m div 16"] show False by simp
    qed
    then have "hex m = [hex_digit m]" by (subst hex.simps) simp
    with n "1.prems" True m show ?thesis by (simp add: hex_digit_inj)
  next
    case False
    then have n: "hex n = hex (n div 16) @ [hex_digit (n mod 16)]" by (subst hex.simps) simp
    have m: "\<not> m < 16"
    proof
      assume "m < 16"
      then have "hex m = [hex_digit m]" by (subst hex.simps) simp
      with n "1.prems" hex_not_Nil [of "n div 16"] show False by simp
    qed
    then have "hex m = hex (m div 16) @ [hex_digit (m mod 16)]" by (subst hex.simps) simp
    with n "1.prems" have q: "hex (n div 16) = hex (m div 16)"
      and r: "hex_digit (n mod 16) = hex_digit (m mod 16)" by simp_all
    from "1.IH" [OF False q] have "n div 16 = m div 16" .
    moreover from r have "n mod 16 = m mod 16" by (simp add: hex_digit_inj)
    ultimately show ?thesis by (metis div_mult_mod_eq)
  qed
qed

lemma tick_simps [simp]:
  "colls (tick s) = colls s" "next_id (tick s) = next_id s" "faults (tick s) = tl (faults s)"
  by (simp_all add: tick_def)

lemma insert_one_simps [simp]:
  "colls (insert_one c d s) =
     (colls s)(c := colls s c @ [(''_id'', VObjectId (next_id s)) # d])"
  "next_id (insert_one c d s) = Suc (next_id s)"
  "faults (insert_one c d s) = faults s"
  by (simp_all add: insert_one_def)

lemma available_Suc:
  "available (Suc k) s = (store_fault s = None \<and> available k (tick s))"
proof (cases "faults s")
  case Nil
  then show ?thesis by (simp add: available_def store_fault_def)
next
  case (Cons f fs)
  then show ?thesis by (cases f) (simp_all add: available_def store_fault_def)
qed

lemma available_0 [simp]: "available 0 s"
  by (simp add: available_def)

lemma available_insert_one [simp]: "available k (insert_one c d s) = available k s"
  by (simp add: available_def)

lemma store_fault_insert_one [simp]: "store_fault (insert_one c d s) = store_fault s"
  by (simp add: store_fault_def)

lemma matches_single: "matches [(k, v)] = (\<lambda>d. map_of d k = Some v)"
  by (rule ext) (simp add: matches_def)

lemma filter_Nil_find: "(filter P xs = []) = (find P xs = None)"
  by (induction xs) simp_all

lemma find_None_iff_ball: "(find P xs = None) = (\<forall>x \<in> set xs. \<not> P x)"
  by (induction xs) simp_all

lemma find_append_new:
  "\<forall>x \<in> set xs. \<not> P x \<Longrightarrow> P y \<Longrightarrow> find P (xs @ y # ys) = Some y"
  by (induction xs) simp_all

lemma get_documents_ok:
  "store_fault s = None \<Longrightarrow>
     get_documents c flt limit s = (Inr (take limit (filter (matches flt) (colls s c))), tick s)"
  by (simp add: get_documents_def)

lemma get_documents_fails:
  "store_fault s = Some msg \<Longrightarrow> get_documents c flt limit s = (Inl msg, tick s)"
  by (simp add: get_documents_def)

lemma create_document_ok:
  "store_fault s = None \<Longrightarrow>
     create_document c d s = (Inr (hex (next_id s)), insert_one c d (tick s))"
  by (simp add: create_document_def)

lemma create_document_fails:
  "store_fault s = Some msg \<Longrightarrow> create_document c d s = (Inl msg, tick s)"
  by (simp add: create_document_def)

section \<open>Properties of the authentication handlers\<close>

lemma signup_lookup_ok:
  "store_fault s = None \<Longrightarrow>
     signup_lookup p s =
       (case find (\<lambda>u. map_of u ''email'' = Some (VStr (SignupRequest.email p))) (colls s ''user'') of
          None \<Rightarrow> (Inr (), tick s)
        | Some u \<Rightarrow> (Inl (HTTPException 409 ''Email already exists''), tick s))"
  by (auto simp: signup_lookup_def get_documents_ok matches_single filter_Nil_find
      split: option.split)

lemma signup_insert_ok:
  "store_fault s = None \<Longrightarrow>
     signup_insert p s =
       (Inr [(''user_id'', VStr (hex (next_id s))), (''email'', VStr (SignupRequest.email p))],
        insert_one ''user''
          (User_dump \<lparr>User.email = SignupRequest.email p,
                      password_hash = ''hash:'' @ SignupRequest.password p,
                      is_guest = False, plan = ''free''\<rparr>) (tick s))"
  by (simp add: signup_insert_def create_document_ok)

lemma signup_conflict:
  assumes "store_fault s = None"
    and "\<exists>u \<in> set (colls s ''user''). map_of u ''email'' = Some (VStr (SignupRequest.email p))"
  shows "signup p s = (Inl (HTTPException 409 ''Email already exists''), tick s)"
proof -
  from assms(2) obtain u where
    "find (\<lambda>u. map_of u ''email'' = Some (VStr (SignupRequest.email p))) (colls s ''user'') = Some u"
    using find_None_iff_ball [of "\<lambda>u. map_of u ''email'' = Some (VStr (SignupRequest.email p))"
        "colls s ''user''"] by auto
  then show ?thesis
    by (simp add: signup_def signup_lookup_ok [OF assms(1)])
qed

lemma signup_creates:
  assumes "available 2 s"
    and "\<forall>u \<in> set (colls s ''user''). map_of u ''email'' \<noteq> Some (VStr (SignupRequest.email p))"
  shows "signup p s =
       (Inr [(''user_id'', VStr (hex (next_id s))), (''email'', VStr (SignupRequest.email p))],
        insert_one ''user''
          (User_dump \<lparr>User.email = SignupRequest.email p,
                      password_hash = ''hash:'' @ SignupRequest.password p,
                      is_guest = False, plan = ''free''\<rparr>) (tick (tick s)))"
proof -
  from assms(1) have f1: "store_fault s = None" and f2: "store_fault (tick s) = None"
    by (simp_all add: numeral_2_eq_2 available_Suc)
  from assms(2) have
    "find (\<lambda>u. map_of u ''email'' = Some (VStr (SignupRequest.email p))) (colls s ''user'') = None"
    by (simp add: find_None_iff_ball)
  then show ?thesis
    by (simp add: signup_def signup_lookup_ok [OF f1] signup_insert_ok [OF f2])
qed

text \<open>A signup that returned a response found no record with its email and inserted one.\<close>

lemma signup_InrD:
  assumes "signup p s = (Inr r, s')"
  shows "available 2 s
       \<and> (\<forall>u \<in> set (colls s ''user''). map_of u ''email'' \<noteq> Some (VStr (SignupRequest.email p)))"
proof -
  have f1: "store_fault s = None"
  proof (rule ccontr)
    assume "store_fault s \<noteq> None"
    then obtain msg where "store_fault s = Some msg" by auto
    with assms show False
      by (simp add: signup_def signup_lookup_def get_documents_fails)
  qed
  have nf: "find (\<lambda>u. map_of u ''email'' = Some (VStr (SignupRequest.email p))) (colls s ''user'') = None"
  proof (rule ccontr)
    assume "\<not> ?thesis"
    then obtain u where
      "find (\<lambda>u. map_of u ''email'' = Some (VStr (SignupRequest.email p))) (colls s ''user'') = Some u"
      by auto
    with assms show False by (simp add: signup_def signup_lookup_ok [OF f1])
  qed
  have f2: "store_fault (tick s) = None"
  proof (rule ccontr)
    assume "store_fault (tick s) \<noteq> None"
    then obtain msg where "store_fault (tick s) = Some msg" by auto
    with assms nf show False
      by (simp add: signup_def signup_lookup_ok [OF f1] signup_insert_def create_document_fails)
  qed
  from f1 f2 nf show ?thesis
    by (simp add: numeral_2_eq_2 available_Suc find_None_iff_ball)
qed

text \<open>
  C4. Signup, while the store answers. If a user record with the email exists, the
  handler answers 409 and the collections and the identifier counter are unchanged.
  Otherwise it answers with the new identifier and the email, and the user collection
  has gained exactly one record: that email, the password hash \<^verbatim>\<open>"hash:"\<close> followed by the
  plaintext, \<^verbatim>\<open>is_guest\<close> false. After a successful signup a second one with the same
  email answers 409; two signups with different emails, neither registered, both
  succeed, with different identifiers.
\<close>

theorem signup_conflict_or_create:
  assumes "available 4 s"
  shows "((\<exists>u \<in> set (colls s ''user''). map_of u ''email'' = Some (VStr (SignupRequest.email p))) \<longrightarrow>
            fst (signup p s) = Inl (HTTPException 409 ''Email already exists'')
          \<and> colls (snd (signup p s)) = colls s
          \<and> next_id (snd (signup p s)) = next_id s)
       \<and> ((\<forall>u \<in> set (colls s ''user''). map_of u ''email'' \<noteq> Some (VStr (SignupRequest.email p))) \<longrightarrow>
            fst (signup p s) =
              Inr [(''user_id'', VStr (hex (next_id s))), (''email'', VStr (SignupRequest.email p))]
          \<and> colls (snd (signup p s)) = (colls s)(''user'' := colls s ''user'' @
               [[(''_id'', VObjectId (next_id s)),
                 (''email'', VStr (SignupRequest.email p)),
                 (''password_hash'', VStr (''hash:'' @ SignupRequest.password p)),
                 (''is_guest'', VBool False),
                 (''plan'', VStr ''free'')]])
          \<and> (SignupRequest.email p' = SignupRequest.email p \<longrightarrow>
                fst (signup p' (snd (signup p s))) = Inl (HTTPException 409 ''Email already exists'')
              \<and> colls (snd (signup p' (snd (signup p s)))) = colls (snd (signup p s)))
          \<and> (SignupRequest.email p' \<noteq> SignupRequest.email p
              \<and> (\<forall>u \<in> set (colls s ''user''). map_of u ''email'' \<noteq> Some (VStr (SignupRequest.email p'))) \<longrightarrow>
                (\<exists>i j. fst (signup p s) = Inr [(''user_id'', VStr i), (''email'', VStr (SignupRequest.email p))]
                     \<and> fst (signup p' (snd (signup p s))) =
                         Inr [(''user_id'', VStr j), (''email'', VStr (SignupRequest.email p'))]
                     \<and> i \<noteq> j)))"
proof (intro conjI impI)
  from assms have a2: "available 2 s" and f1: "store_fault s = None"
    by (simp_all add: eval_nat_numeral available_Suc)
  {
    assume ex: "\<exists>u \<in> set (colls s ''user''). map_of u ''email'' = Some (VStr (SignupRequest.email p))"
    from signup_conflict [OF f1 ex]
    show "fst (signup p s) = Inl (HTTPException 409 ''Email already exists'')"
      and "colls (snd (signup p s)) = colls s"
      and "next_id (snd (signup p s)) = next_id s"
      by simp_all
  }
  {
    assume no: "\<forall>u \<in> set (colls s ''user''). map_of u ''email'' \<noteq> Some (VStr (SignupRequest.email p))"
    note first = signup_creates [OF a2 no]
    from first
    show r: "fst (signup p s) =
        Inr [(''user_id'', VStr (hex (next_id s))), (''email'', VStr (SignupRequest.email p))]"
      by simp
    from first
    show c: "colls (snd (signup p s)) = (colls s)(''user'' := colls s ''user'' @
               [[(''_id'', VObjectId (next_id s)),
                 (''email'', VStr (SignupRequest.email p)),
                 (''password_hash'', VStr (''hash:'' @ SignupRequest.password p)),
                 (''is_guest'', VBool False),
                 (''plan'', VStr ''free'')]])"
      by (simp add: User_dump_def)
    from first assms have a2': "available 2 (snd (signup p s))"
      by (simp add: eval_nat_numeral available_Suc)
    then have f1': "store_fault (snd (signup p s)) = None"
      by (simp add: eval_nat_numeral available_Suc)
    {
      assume same: "SignupRequest.email p' = SignupRequest.email p"
      have ex: "\<exists>u \<in> set (colls (snd (signup p s)) ''user'').
          map_of u ''email'' = Some (VStr (SignupRequest.email p'))"
        by (simp add: c same)
      from signup_conflict [OF f1' ex]
      show "fst (signup p' (snd (signup p s))) = Inl (HTTPException 409 ''Email already exists'')"
        and "colls (snd (signup p' (snd (signup p s)))) = colls (snd (signup p s))"
        by simp_all
    }
    {
      assume other: "SignupRequest.email p' \<noteq> SignupRequest.email p
        \<and> (\<forall>u \<in> set (colls s ''user''). map_of u ''email'' \<noteq> Some (VStr (SignupRequest.email p')))"
      then have no': "\<forall>u \<in> set (colls (snd (signup p s)) ''user'').
          map_of u ''email'' \<noteq> Some (VStr (SignupRequest.email p'))"
        by (auto simp: c)
      from first have n: "next_id (snd (signup p s)) = Suc (next_id s)" by simp
      from signup_creates [OF a2' no'] n
      have r': "fst (signup p' (snd (signup p s))) =
          Inr [(''user_id'', VStr (hex (Suc (next_id s)))), (''email'', VStr (SignupRequest.email p'))]"
        by simp
      have "hex (next_id s) \<noteq> hex (Suc (next_id s))"
        using hex_inj [of "next_id s" "Suc (next_id s)"] by auto
      with r r'
      show "\<exists>i j. fst (signup p s) = Inr [(''user_id'', VStr i), (''email'', VStr (SignupRequest.email p))]
                     \<and> fst (signup p' (snd (signup p s))) =
                         Inr [(''user_id'', VStr j), (''email'', VStr (SignupRequest.email p'))]
                     \<and> i \<noteq> j"
        by blast
    }
  }
qed

theorem signup_conflict_or_create_witness:
  "available 4 (empty_store [])
   \<and> fst (signup \<lparr>SignupRequest.email = ''a@x.io'', password = ''pw''\<rparr> (empty_store []))
       = Inr [(''user_id'', VStr ''0''), (''email'', VStr ''a@x.io'')]
   \<and> colls (snd (signup \<lparr>SignupRequest.email = ''a@x.io'', password = ''pw''\<rparr> (empty_store [])))
        ''user''
       = [[(''_id'', VObjectId 0), (''email'', VStr ''a@x.io''),
           (''password_hash'', VStr ''hash:pw''), (''is_guest'', VBool False),
           (''plan'', VStr ''free'')]]
   \<and> fst (signup \<lparr>SignupRequest.email = ''a@x.io'', password = ''other''\<rparr>
        (snd (signup \<lparr>SignupRequest.email = ''a@x.io'', password = ''pw''\<rparr> (empty_store []))))
       = Inl (HTTPException 409 ''Email already exists'')"
proof -
  have a: "available 4 (empty_store [])"
    by (simp add: available_def empty_store_def)
  have n: "next_id (empty_store []) = 0" "colls (empty_store []) = (\<lambda>_. [])"
    by (simp_all add: empty_store_def)
  have h: "hex 0 = ''0''"
    by (subst hex.simps) (simp add: hex_digit_def)
  from signup_conflict_or_create [OF a,
      of "\<lparr>SignupRequest.email = ''a@x.io'', password = ''pw''\<rparr>"
         "\<lparr>SignupRequest.email = ''a@x.io'', password = ''other''\<rparr>"] a
  show ?thesis
    by (simp add: n h)
qed

lemma take_Suc_0_filter:
  "take (Suc 0) (filter P xs) = (case find P xs of None \<Rightarrow> [] | Some x \<Rightarrow> [x])"
  by (induction xs) simp_all

lemma login_ok:
  "store_fault s = None \<Longrightarrow>
     login q s =
       (case find (\<lambda>u. map_of u ''email'' = Some (VStr (LoginRequest.email q))) (colls s ''user'') of
          None \<Rightarrow> (Inl (HTTPException 404 ''User not found''), tick s)
        | Some user \<Rightarrow>
            if dict_get user ''password_hash'' \<noteq> VStr (''hash:'' @ LoginRequest.password q)
            then (Inl (HTTPException 401 ''Invalid credentials''), tick s)
            else (Inr [(''user_id'', VStr (py_str (dict_get user ''_id''))),
                       (''email'', dict_get user ''email'')], tick s))"
  by (simp add: login_def get_documents_ok matches_single take_Suc_0_filter split: option.split)

text \<open>
  C5, as the code has it. Login, while the store answers, is decided by the first user
  record with the email: none gives 404; one whose \<^verbatim>\<open>password_hash\<close> differs from
  \<^verbatim>\<open>"hash:"\<close> followed by the plaintext gives 401; otherwise the answer is that record's
  identifier and email. After a signup that ran from its lookup to its insert with no
  other request in between and succeeded, a login with its email and password returns
  the response of the signup, with the same identifier, also when further records have
  been inserted after it.
\<close>

theorem login_outcomes:
  assumes "store_fault s = None"
  shows "(find (\<lambda>u. map_of u ''email'' = Some (VStr (LoginRequest.email q))) (colls s ''user'') = None \<longrightarrow>
            login q s = (Inl (HTTPException 404 ''User not found''), tick s))
       \<and> (\<forall>user. find (\<lambda>u. map_of u ''email'' = Some (VStr (LoginRequest.email q))) (colls s ''user'')
                   = Some user \<longrightarrow>
            (dict_get user ''password_hash'' \<noteq> VStr (''hash:'' @ LoginRequest.password q) \<longrightarrow>
               login q s = (Inl (HTTPException 401 ''Invalid credentials''), tick s))
          \<and> (dict_get user ''password_hash'' = VStr (''hash:'' @ LoginRequest.password q) \<longrightarrow>
               login q s = (Inr [(''user_id'', VStr (py_str (dict_get user ''_id''))),
                                 (''email'', dict_get user ''email'')], tick s)))
       \<and> (\<forall>p s0 r later.
            signup p s0 = (Inr r, s) \<and> LoginRequest.email q = SignupRequest.email p
            \<and> LoginRequest.password q = SignupRequest.password p \<longrightarrow>
              login q s = (Inr r, tick s)
            \<and> login q (s\<lparr>colls := (colls s)(''user'' := colls s ''user'' @ later)\<rparr>)
                = (Inr r, tick (s\<lparr>colls := (colls s)(''user'' := colls s ''user'' @ later)\<rparr>)))"
proof (intro conjI allI impI)
  note l = login_ok [OF assms, of q]
  {
    assume "find (\<lambda>u. map_of u ''email'' = Some (VStr (LoginRequest.email q))) (colls s ''user'') = None"
    with l show "login q s = (Inl (HTTPException 404 ''User not found''), tick s)" by simp
  }
  {
    fix user
    assume f: "find (\<lambda>u. map_of u ''email'' = Some (VStr (LoginRequest.email q))) (colls s ''user'')
        = Some user"
    {
      assume "dict_get user ''password_hash'' \<noteq> VStr (''hash:'' @ LoginRequest.password q)"
      with l f show "login q s = (Inl (HTTPException 401 ''Invalid credentials''), tick s)" by simp
    }
    {
      assume "dict_get user ''password_hash'' = VStr (''hash:'' @ LoginRequest.password q)"
      with l f show "login q s = (Inr [(''user_id'', VStr (py_str (dict_get user ''_id''))),
                                 (''email'', dict_get user ''email'')], tick s)" by simp
    }
  }
  {
    fix p s0 r later
    assume h: "signup p s0 = (Inr r, s) \<and> LoginRequest.email q = SignupRequest.email p
            \<and> LoginRequest.password q = SignupRequest.password p"
    then have su: "signup p s0 = (Inr r, s)" by simp
    from signup_InrD [OF su] have a2: "available 2 s0"
      and no: "\<forall>u \<in> set (colls s0 ''user''). map_of u ''email'' \<noteq> Some (VStr (SignupRequest.email p))"
      by simp_all
    from signup_creates [OF a2 no] su
    have r: "r = [(''user_id'', VStr (hex (next_id s0))), (''email'', VStr (SignupRequest.email p))]"
      and s: "s = insert_one ''user''
          (User_dump \<lparr>User.email = SignupRequest.email p,
                      password_hash = ''hash:'' @ SignupRequest.password p,
                      is_guest = False, plan = ''free''\<rparr>) (tick (tick s0))"
      by simp_all
    let ?new = "(''_id'', VObjectId (next_id s0)) #
          User_dump \<lparr>User.email = SignupRequest.email p,
                      password_hash = ''hash:'' @ SignupRequest.password p,
                      is_guest = False, plan = ''free''\<rparr>"
    have c: "colls s ''user'' = colls s0 ''user'' @ [?new]"
      by (simp add: s)
    have pn: "map_of ?new ''email'' = Some (VStr (LoginRequest.email q))"
      using h by (simp add: User_dump_def)
    have fnd: "find (\<lambda>u. map_of u ''email'' = Some (VStr (LoginRequest.email q)))
          (colls s0 ''user'' @ ?new # ys) = Some ?new" for ys
      using no h pn
      by (intro find_append_new) simp_all
    have g: "dict_get ?new ''password_hash'' = VStr (''hash:'' @ LoginRequest.password q)"
      "py_str (dict_get ?new ''_id'') = hex (next_id s0)"
      "dict_get ?new ''email'' = VStr (SignupRequest.email p)"
      using h by (simp_all add: dict_get_def User_dump_def)
    from l fnd [of "[]"] g
    show "login q s = (Inr r, tick s)"
      by (simp add: c r)
    let ?s' = "s\<lparr>colls := (colls s)(''user'' := colls s ''user'' @ later)\<rparr>"
    have "store_fault ?s' = None"
      using assms by (simp add: store_fault_def)
    from login_ok [OF this, of q] fnd [of later] g
    show "login q ?s' = (Inr r, tick ?s')"
      by (simp add: c r)
  }
qed

theorem login_outcomes_witness:
  "login \<lparr>LoginRequest.email = ''a@x.io'', password = ''pw''\<rparr> (empty_store [])
     = (Inl (HTTPException 404 ''User not found''), tick (empty_store []))
   \<and> login \<lparr>LoginRequest.email = ''a@x.io'', password = ''bad''\<rparr>
       (snd (signup \<lparr>SignupRequest.email = ''a@x.io'', password = ''pw''\<rparr> (empty_store [])))
     = (Inl (HTTPException 401 ''Invalid credentials''),
        tick (snd (signup \<lparr>SignupRequest.email = ''a@x.io'', password = ''pw''\<rparr> (empty_store []))))
   \<and> login \<lparr>LoginRequest.email = ''a@x.io'', password = ''pw''\<rparr>
       (snd (signup \<lparr>SignupRequest.email = ''a@x.io'', password = ''pw''\<rparr> (empty_store [])))
     = (fst (signup \<lparr>SignupRequest.email = ''a@x.io'', password = ''pw''\<rparr> (empty_store [])),
        tick (snd (signup \<lparr>SignupRequest.email = ''a@x.io'', password = ''pw''\<rparr> (empty_store []))))"
proof -
  let ?p = "\<lparr>SignupRequest.email = ''a@x.io'', password = ''pw''\<rparr>"
  have a: "available 2 (empty_store [])"
    by (simp add: available_def empty_store_def)
  have e: "colls (empty_store []) = (\<lambda>_. [])" "next_id (empty_store []) = 0"
    "store_fault (empty_store []) = None"
    by (simp_all add: empty_store_def store_fault_def)
  have su: "signup ?p (empty_store []) =
      (Inr [(''user_id'', VStr (hex 0)), (''email'', VStr ''a@x.io'')],
       insert_one ''user''
          (User_dump \<lparr>User.email = ''a@x.io'', password_hash = ''hash:pw'',
                      is_guest = False, plan = ''free''\<rparr>) (tick (tick (empty_store []))))"
    using signup_creates [OF a, of ?p] by (simp add: e)
  have f: "store_fault (snd (signup ?p (empty_store []))) = None"
    by (simp add: su) (simp add: store_fault_def empty_store_def)
  have c: "colls (snd (signup ?p (empty_store []))) ''user'' =
      [(''_id'', VObjectId 0) # User_dump \<lparr>User.email = ''a@x.io'', password_hash = ''hash:pw'',
                      is_guest = False, plan = ''free''\<rparr>]"
    by (simp add: su e)
  have "login \<lparr>LoginRequest.email = ''a@x.io'', password = ''pw''\<rparr> (empty_store [])
     = (Inl (HTTPException 404 ''User not found''), tick (empty_store []))"
    using login_outcomes [OF e(3), of "\<lparr>LoginRequest.email = ''a@x.io'', password = ''pw''\<rparr>"]
    by (simp add: e)
  moreover have "login \<lparr>LoginRequest.email = ''a@x.io'', password = ''bad''\<rparr>
       (snd (signup ?p (empty_store [])))
     = (Inl (HTTPException 401 ''Invalid credentials''), tick (snd (signup ?p (empty_store []))))"
    using login_outcomes [OF f, of "\<lparr>LoginRequest.email = ''a@x.io'', password = ''bad''\<rparr>"]
    by (simp add: c User_dump_def dict_get_def)
  moreover have "login \<lparr>LoginRequest.email = ''a@x.io'', password = ''pw''\<rparr>
       (snd (signup ?p (empty_store [])))
     = (fst (signup ?p (empty_store [])), tick (snd (signup ?p (empty_store []))))"
  proof -
    obtain r s where rs: "signup ?p (empty_store []) = (Inr r, s)" using su by simp
    with f have "store_fault s = None" by simp
    from login_outcomes [OF this, of "\<lparr>LoginRequest.email = ''a@x.io'', password = ''pw''\<rparr>"] rs
    have "login \<lparr>LoginRequest.email = ''a@x.io'', password = ''pw''\<rparr> s = (Inr r, tick s)"
      by (metis LoginRequest.select_convs SignupRequest.select_convs)
    with rs show ?thesis by simp
  qed
  ultimately show ?thesis by blast
qed

text \<open>
  C5, as it is stated, has every login with the email and password of a signup return
  the identifier that the signup produced. A signup passes its lookup on the empty
  store, a guest login with the same email inserts its record, and the signup inserts
  its own and answers with the identifier \<^verbatim>\<open>1\<close>: in the store so reached the login with
  the email and password of that signup answers 401.
\<close>

theorem login_after_signup_unauthorized:
  "signup_lookup \<lparr>SignupRequest.email = ''a@x.io'', password = ''pw''\<rparr> (empty_store [])
     = (Inr (), tick (empty_store []))
   \<and> fst (signup_insert \<lparr>SignupRequest.email = ''a@x.io'', password = ''pw''\<rparr>
        (snd (guest_login \<lparr>GuestLoginRequest.email = ''a@x.io''\<rparr> (tick (empty_store [])))))
     = Inr [(''user_id'', VStr ''1''), (''email'', VStr ''a@x.io'')]
   \<and> reach (snd (signup_insert \<lparr>SignupRequest.email = ''a@x.io'', password = ''pw''\<rparr>
        (snd (guest_login \<lparr>GuestLoginRequest.email = ''a@x.io''\<rparr> (tick (empty_store [])))))) []
   \<and> fst (login \<lparr>LoginRequest.email = ''a@x.io'', password = ''pw''\<rparr>
        (snd (signup_insert \<lparr>SignupRequest.email = ''a@x.io'', password = ''pw''\<rparr>
          (snd (guest_login \<lparr>GuestLoginRequest.email = ''a@x.io''\<rparr> (tick (empty_store [])))))))
     = Inl (HTTPException 401 ''Invalid credentials'')"
proof -
  let ?p = "\<lparr>SignupRequest.email = ''a@x.io'', password = ''pw''\<rparr>"
  let ?g = "\<lparr>GuestLoginRequest.email = ''a@x.io''\<rparr>"
  let ?q = "\<lparr>LoginRequest.email = ''a@x.io'', password = ''pw''\<rparr>"
  let ?s1 = "tick (empty_store [])"
  let ?gd = "User_dump \<lparr>User.email = ''a@x.io'', password_hash = ''guest'', is_guest = True,
                  plan = ''free''\<rparr>"
  let ?ud = "User_dump \<lparr>User.email = ''a@x.io'', password_hash = ''hash:pw'', is_guest = False,
                  plan = ''free''\<rparr>"
  let ?s2 = "insert_one ''user'' ?gd (tick ?s1)"
  let ?s3 = "insert_one ''user'' ?ud (tick ?s2)"
  have f0: "store_fault (empty_store []) = None" and f1: "store_fault ?s1 = None"
    and f2: "store_fault ?s2 = None" and f3: "store_fault ?s3 = None"
    by (simp_all add: store_fault_def empty_store_def)
  have e0: "colls (empty_store []) = (\<lambda>_. [])" and n0: "next_id (empty_store []) = 0"
    by (simp_all add: empty_store_def)
  have h1: "hex (Suc 0) = ''1''"
    by (subst hex.simps) (simp add: hex_digit_def)
  have look: "signup_lookup ?p (empty_store []) = (Inr (), ?s1)"
    by (simp add: signup_lookup_ok [OF f0] e0)
  have gl: "snd (guest_login ?g ?s1) = ?s2"
    by (simp add: guest_login_def create_document_ok [OF f1])
  have ins: "signup_insert ?p ?s2 =
      (Inr [(''user_id'', VStr ''1''), (''email'', VStr ''a@x.io'')], ?s3)"
    by (simp add: signup_insert_ok [OF f2] n0 h1)
  have r1: "reach ?s1 [?p]"
    by (rule reach.signup_passed [OF reach.start look])
  from reach.guest [OF r1, of ?g] have r2: "reach ?s2 [?p]"
    by (simp only: gl)
  from reach.signup_inserted [OF r2, of ?p] have r3: "reach ?s3 []"
    by (simp add: ins)
  have c: "colls ?s3 ''user'' = [(''_id'', VObjectId 0) # ?gd, (''_id'', VObjectId 1) # ?ud]"
    by (simp add: e0 n0)
  have lg: "fst (login ?q ?s3) = Inl (HTTPException 401 ''Invalid credentials'')"
    unfolding login_ok [OF f3] c by (simp add: dict_get_def User_dump_def)
  from look ins r3 lg show ?thesis
    unfolding gl by simp
qed

lemma guest_login_ok:
  "store_fault s = None \<Longrightarrow>
     guest_login g s =
       (Inr [(''user_id'', VStr (hex (next_id s))),
             (''email'', VStr (GuestLoginRequest.email g)),
             (''guest'', VBool True)],
        insert_one ''user''
          (User_dump \<lparr>User.email = GuestLoginRequest.email g, password_hash = ''guest'',
                      is_guest = True, plan = ''free''\<rparr>) (tick s))"
  by (simp add: guest_login_def create_document_ok)

text \<open>
  C8. Guest login, while the store answers, never looks at the user collection: whatever
  it holds, the handler appends one record with the email, the password hash
  \<^verbatim>\<open>"guest"\<close> and \<^verbatim>\<open>is_guest\<close> true, and answers with the new identifier, the email and
  the guest flag. A second call with the same payload succeeds as well, with another
  identifier, and leaves two such records.
\<close>

theorem guest_login_always_creates:
  assumes "available 2 s"
  shows "fst (guest_login g s) =
           Inr [(''user_id'', VStr (hex (next_id s))),
                (''email'', VStr (GuestLoginRequest.email g)),
                (''guest'', VBool True)]
       \<and> colls (snd (guest_login g s)) = (colls s)(''user'' := colls s ''user'' @
            [[(''_id'', VObjectId (next_id s)),
              (''email'', VStr (GuestLoginRequest.email g)),
              (''password_hash'', VStr ''guest''),
              (''is_guest'', VBool True),
              (''plan'', VStr ''free'')]])
       \<and> fst (guest_login g (snd (guest_login g s))) =
           Inr [(''user_id'', VStr (hex (Suc (next_id s)))),
                (''email'', VStr (GuestLoginRequest.email g)),
                (''guest'', VBool True)]
       \<and> hex (Suc (next_id s)) \<noteq> hex (next_id s)
       \<and> colls (snd (guest_login g (snd (guest_login g s)))) ''user'' = colls s ''user'' @
            [[(''_id'', VObjectId (next_id s)),
              (''email'', VStr (GuestLoginRequest.email g)),
              (''password_hash'', VStr ''guest''),
              (''is_guest'', VBool True),
              (''plan'', VStr ''free'')],
             [(''_id'', VObjectId (Suc (next_id s))),
              (''email'', VStr (GuestLoginRequest.email g)),
              (''password_hash'', VStr ''guest''),
              (''is_guest'', VBool True),
              (''plan'', VStr ''free'')]]"
proof -
  from assms have f1: "store_fault s = None" and f2: "store_fault (tick s) = None"
    by (simp_all add: eval_nat_numeral available_Suc)
  note first = guest_login_ok [OF f1, of g]
  from f2 first have "store_fault (snd (guest_login g s)) = None" by simp
  note second = guest_login_ok [OF this, of g]
  have "hex (Suc (next_id s)) \<noteq> hex (next_id s)"
    using hex_inj [of "Suc (next_id s)" "next_id s"] by auto
  moreover have "colls (snd (guest_login g (snd (guest_login g s)))) ''user'' = colls s ''user'' @
            [[(''_id'', VObjectId (next_id s)),
              (''email'', VStr (GuestLoginRequest.email g)),
              (''password_hash'', VStr ''guest''),
              (''is_guest'', VBool True),
              (''plan'', VStr ''free'')],
             [(''_id'', VObjectId (Suc (next_id s))),
              (''email'', VStr (GuestLoginRequest.email g)),
              (''password_hash'', VStr ''guest''),
              (''is_guest'', VBool True),
              (''plan'', VStr ''free'')]]"
    by (simp add: second) (simp add: first User_dump_def)
  moreover have "fst (guest_login g (snd (guest_login g s))) =
           Inr [(''user_id'', VStr (hex (Suc (next_id s)))),
                (''email'', VStr (GuestLoginRequest.email g)),
                (''guest'', VBool True)]"
    by (simp add: second) (simp add: first)
  moreover have "colls (snd (guest_login g s)) = (colls s)(''user'' := colls s ''user'' @
            [[(''_id'', VObjectId (next_id s)),
              (''email'', VStr (GuestLoginRequest.email g)),
              (''password_hash'', VStr ''guest''),
              (''is_guest'', VBool True),
              (''plan'', VStr ''free'')]])"
    by (simp add: first User_dump_def)
  ultimately show ?thesis by (simp add: first)
qed

theorem guest_login_always_creates_witness:
  "available 2 (empty_store [])
   \<and> fst (guest_login \<lparr>GuestLoginRequest.email = ''g@x.io''\<rparr> (empty_store []))
       = Inr [(''user_id'', VStr ''0''), (''email'', VStr ''g@x.io''), (''guest'', VBool True)]
   \<and> fst (guest_login \<lparr>GuestLoginRequest.email = ''g@x.io''\<rparr>
        (snd (guest_login \<lparr>GuestLoginRequest.email = ''g@x.io''\<rparr> (empty_store []))))
       = Inr [(''user_id'', VStr ''1''), (''email'', VStr ''g@x.io''), (''guest'', VBool True)]
   \<and> colls (snd (guest_login \<lparr>GuestLoginRequest.email = ''g@x.io''\<rparr>
        (snd (guest_login \<lparr>GuestLoginRequest.email = ''g@x.io''\<rparr> (empty_store []))))) ''user''
       = [[(''_id'', VObjectId 0), (''email'', VStr ''g@x.io''),
           (''password_hash'', VStr ''guest''), (''is_guest'', VBool True),
           (''plan'', VStr ''free'')],
          [(''_id'', VObjectId 1), (''email'', VStr ''g@x.io''),
           (''password_hash'', VStr ''guest''), (''is_guest'', VBool True),
           (''plan'', VStr ''free'')]]"
proof -
  have a: "available 2 (empty_store [])"
    by (simp add: available_def empty_store_def)
  have n: "next_id (empty_store []) = 0" "colls (empty_store []) = (\<lambda>_. [])"
    by (simp_all add: empty_store_def)
  have h: "hex 0 = ''0''" "hex (Suc 0) = ''1''"
    by (subst hex.simps, simp add: hex_digit_def)+
  from guest_login_always_creates [OF a, of "\<lparr>GuestLoginRequest.email = ''g@x.io''\<rparr>"] a
  show ?thesis
    by (simp add: n h)
qed

section \<open>Store failures\<close>

text \<open>
  C6. A failing insert is not turned into a 500 response. In \<^verbatim>\<open>signup\<close> the lookup is
  inside \<^verbatim>\<open>try\<close> and its failure becomes \<^verbatim>\<open>HTTPException(500, detail=str(e))\<close>, but
  \<^verbatim>\<open>create_document\<close> is called outside any \<^verbatim>\<open>try\<close> in \<^verbatim>\<open>signup\<close>, \<^verbatim>\<open>guest_login\<close>,
  \<^verbatim>\<open>save_user_input\<close> and \<^verbatim>\<open>run_workflow\<close>: when the insert raises, the exception
  leaves the handler as it is.
\<close>

theorem insert_failure_escapes:
  "fst (signup \<lparr>SignupRequest.email = ''a@x.io'', password = ''pw''\<rparr>
          (empty_store [Some ''connection refused'']))
     = Inl (HTTPException 500 ''connection refused'')
   \<and> fst (signup \<lparr>SignupRequest.email = ''a@x.io'', password = ''pw''\<rparr>
          (empty_store [None, Some ''connection refused'']))
     = Inl (Exception ''connection refused'')
   \<and> fst (guest_login \<lparr>GuestLoginRequest.email = ''g@x.io''\<rparr>
          (empty_store [Some ''connection refused'']))
     = Inl (Exception ''connection refused'')
   \<and> fst (save_user_input \<lparr>UserInput.user_id = ''u1'', face_photo_url = None,
            height_cm = Some 180, weight_kg = Some 75, age = Some 30, goals = None,
            style_vibe = None\<rparr> (empty_store [Some ''connection refused'']))
     = Inl (Exception ''connection refused'')
   \<and> fst (run_workflow \<lparr>WorkflowRequest.user_id = ''u1''\<rparr>
          (empty_store [None, Some ''connection refused'']))
     = Inl (Exception ''connection refused'')"
proof -
  have f0: "store_fault (empty_store [Some ''connection refused'']) = Some ''connection refused''"
    by (simp add: store_fault_def empty_store_def)
  have f1: "store_fault (empty_store [None, Some ''connection refused'']) = None"
    "store_fault (tick (empty_store [None, Some ''connection refused''])) = Some ''connection refused''"
    by (simp_all add: store_fault_def empty_store_def)
  have c: "colls (empty_store [None, Some ''connection refused'']) = (\<lambda>_. [])"
    by (simp add: empty_store_def)
  have "fst (signup \<lparr>SignupRequest.email = ''a@x.io'', password = ''pw''\<rparr>
          (empty_store [Some ''connection refused'']))
     = Inl (HTTPException 500 ''connection refused'')"
    by (simp add: signup_def signup_lookup_def get_documents_fails [OF f0])
  moreover have "fst (signup \<lparr>SignupRequest.email = ''a@x.io'', password = ''pw''\<rparr>
          (empty_store [None, Some ''connection refused'']))
     = Inl (Exception ''connection refused'')"
    by (simp add: signup_def signup_lookup_ok [OF f1(1)] c signup_insert_def
        create_document_fails [OF f1(2)])
  moreover have "fst (guest_login \<lparr>GuestLoginRequest.email = ''g@x.io''\<rparr>
          (empty_store [Some ''connection refused'']))
     = Inl (Exception ''connection refused'')"
    by (simp add: guest_login_def create_document_fails [OF f0])
  moreover have "fst (save_user_input \<lparr>UserInput.user_id = ''u1'', face_photo_url = None,
            height_cm = Some 180, weight_kg = Some 75, age = Some 30, goals = None,
            style_vibe = None\<rparr> (empty_store [Some ''connection refused'']))
     = Inl (Exception ''connection refused'')"
    by (simp add: save_user_input_def create_document_fails [OF f0])
  moreover have "fst (run_workflow \<lparr>WorkflowRequest.user_id = ''u1''\<rparr>
          (empty_store [None, Some ''connection refused'']))
     = Inl (Exception ''connection refused'')"
    by (simp add: run_workflow_def workflow_base_def get_documents_ok [OF f1(1)] c
        make_face_analysis_def make_physique_plan_def make_styling_plan_def make_glow_up_def
        get_user_id_def create_document_fails [OF f1(2)])
  ultimately show ?thesis by blast
qed

section \<open>Properties of the workflow\<close>

lemma tick_insert_one: "tick (insert_one c d s) = insert_one c d (tick s)"
  by (simp add: tick_def insert_one_def)

lemma find_SomeD: "find P xs = Some x \<Longrightarrow> P x"
  by (induction xs) (auto split: if_splits)

lemma workflow_base_ok:
  "store_fault s = None \<Longrightarrow>
     workflow_base req s =
       (Inr (case find (\<lambda>d. map_of d ''user_id'' = Some (VStr (WorkflowRequest.user_id req)))
                    (colls s ''userinput'') of
               None \<Rightarrow> [(''user_id'', VStr (WorkflowRequest.user_id req))]
             | Some d \<Rightarrow> d), tick s)"
  by (simp add: workflow_base_def get_documents_ok matches_single take_Suc_0_filter
      split: option.split)

text \<open>Whatever record the lookup yields, it carries the requested user id.\<close>

lemma workflow_base_user_id:
  assumes "workflow_base req s = (Inr base, s')"
  shows "map_of base ''user_id'' = Some (VStr (WorkflowRequest.user_id req))"
proof (cases "store_fault s")
  case None
  show ?thesis
  proof (cases "find (\<lambda>d. map_of d ''user_id'' = Some (VStr (WorkflowRequest.user_id req)))
                    (colls s ''userinput'')")
    case n: None
    with assms workflow_base_ok [OF None, of req] show ?thesis by auto
  next
    case (Some d)
    with assms workflow_base_ok [OF None, of req] have "base = d" by simp
    with find_SomeD [OF Some] show ?thesis by simp
  qed
next
  case (Some msg)
  with assms show ?thesis by (simp add: workflow_base_def get_documents_fails)
qed

lemma get_user_id_Some:
  "map_of base ''user_id'' = Some (VStr u) \<Longrightarrow> get_user_id base = Inr u"
  by (simp add: get_user_id_def)

text \<open>The handler as its lookup followed by the inserts of the five documents.\<close>

lemma run_workflow_eq:
  assumes "store_fault s = None"
  shows "run_workflow req s =
     (case create_all (workflow_docs (WorkflowRequest.user_id req)) (tick s) of
        (Inl e, s') \<Rightarrow> (Inl e, s')
      | (Inr _, s') \<Rightarrow>
          (Inr [(''summary'', snd (workflow_docs (WorkflowRequest.user_id req) ! 4)),
                (''face'', snd (workflow_docs (WorkflowRequest.user_id req) ! 0)),
                (''physique'', snd (workflow_docs (WorkflowRequest.user_id req) ! 1)),
                (''styling'', snd (workflow_docs (WorkflowRequest.user_id req) ! 2)),
                (''glow'', snd (workflow_docs (WorkflowRequest.user_id req) ! 3))], s'))"
proof -
  obtain base where b: "workflow_base req s = (Inr base, tick s)"
    using workflow_base_ok [OF assms, of req] by simp
  from workflow_base_user_id [OF b]
  have g: "get_user_id base = Inr (WorkflowRequest.user_id req)"
    by (rule get_user_id_Some)
  have g': "get_user_id [(''user_id'', VStr (WorkflowRequest.user_id req))]
      = Inr (WorkflowRequest.user_id req)"
    by (simp add: get_user_id_def)
  show ?thesis
    by (simp add: run_workflow_def b workflow_docs_def make_face_analysis_def
        make_physique_plan_def make_styling_plan_def make_glow_up_def g g'
        split: prod.split sum.split)
qed

lemma create_all_ok:
  "available (length ds) s \<Longrightarrow> create_all ds s = (Inr (), persist ds s)"
proof (induction ds arbitrary: s)
  case Nil
  then show ?case by simp
next
  case (Cons a ds)
  obtain c d where a: "a = (c, d)" by (cases a)
  from Cons.prems have f: "store_fault s = None" and r: "available (length ds) (tick s)"
    by (simp_all add: available_Suc)
  from r have "available (length ds) (insert_one c d (tick s))" by simp
  from Cons.IH [OF this] show ?case
    by (simp add: a create_document_ok [OF f])
qed

lemma create_all_fails:
  "faults s = replicate j None @ Some msg # rest \<Longrightarrow> j < length ds \<Longrightarrow>
     create_all ds s = (Inl (Exception msg), tick (persist (take j ds) s))"
proof (induction ds arbitrary: s j)
  case Nil
  then show ?case by simp
next
  case (Cons a ds)
  obtain c d where a: "a = (c, d)" by (cases a)
  show ?case
  proof (cases j)
    case 0
    with Cons.prems have "store_fault s = Some msg" by (simp add: store_fault_def)
    then show ?thesis by (simp add: a 0 create_document_fails)
  next
    case (Suc i)
    with Cons.prems have f: "store_fault s = None"
      and t: "faults (insert_one c d (tick s)) = replicate i None @ Some msg # rest"
      and i: "i < length ds"
      by (simp_all add: store_fault_def)
    from Cons.IH [OF t i] show ?thesis
      by (simp add: a Suc create_document_ok [OF f])
  qed
qed

lemma colls_persist_other:
  "c \<notin> fst ` set ds \<Longrightarrow> colls (persist ds s) c = colls s c"
  by (induction ds arbitrary: s) auto

lemma next_id_persist: "next_id (persist ds s) = next_id s + length ds"
  by (induction ds arbitrary: s) auto

lemma colls_persist_nth:
  "distinct (map fst ds) \<Longrightarrow> i < length ds \<Longrightarrow>
     colls (persist ds s) (fst (ds ! i)) =
       colls s (fst (ds ! i)) @ [(''_id'', VObjectId (next_id s + i)) # snd (ds ! i)]"
proof (induction ds arbitrary: s i)
  case Nil
  then show ?case by simp
next
  case (Cons a ds)
  obtain c d where a: "a = (c, d)" by (cases a)
  show ?case
  proof (cases i)
    case 0
    from Cons.prems have "c \<notin> fst ` set ds" by (simp add: a)
    then show ?thesis by (simp add: a 0 colls_persist_other)
  next
    case (Suc k)
    with Cons.prems have d: "distinct (map fst ds)" and k: "k < length ds"
      and ne: "fst (ds ! k) \<noteq> c"
      by (auto simp: a)
    from Cons.IH [OF d k, of "insert_one c d (tick s)"] ne show ?thesis
      by (simp add: a Suc)
  qed
qed

lemma workflow_docs_eq:
  "\<exists>face phys style glow summary.
     workflow_docs u =
       [(''lookmaxxingdetail'', face), (''physiqueplan'', phys), (''stylingplan'', style),
        (''glowupplan'', glow), (''analysissummary'', summary)]
     \<and> map_of face ''user_id'' = Some (VStr u) \<and> map_of phys ''user_id'' = Some (VStr u)
     \<and> map_of style ''user_id'' = Some (VStr u) \<and> map_of glow ''user_id'' = Some (VStr u)
     \<and> map_of summary ''user_id'' = Some (VStr u)"
  by (simp add: workflow_docs_def make_face_analysis_def make_physique_plan_def
      make_styling_plan_def make_glow_up_def get_user_id_def make_summary_def
      LookmaxxingDetail_dump_def PhysiquePlan_dump_def StylingPlan_dump_def
      GlowUpPlan_dump_def AnalysisSummary_dump_def)

lemma workflow_docs_collections:
  "map fst (workflow_docs u) =
     [''lookmaxxingdetail'', ''physiqueplan'', ''stylingplan'', ''glowupplan'', ''analysissummary'']"
  using workflow_docs_eq [of u] by auto

lemma workflow_docs_distinct: "distinct (map fst (workflow_docs u))"
  by (simp add: workflow_docs_collections)

lemma workflow_docs_length: "length (workflow_docs u) = 5"
  using workflow_docs_eq [of u] by auto

lemma workflow_docs_nth:
  "fst (workflow_docs u ! 0) = ''lookmaxxingdetail''"
  "fst (workflow_docs u ! 1) = ''physiqueplan''"
  "fst (workflow_docs u ! Suc 0) = ''physiqueplan''"
  "fst (workflow_docs u ! 2) = ''stylingplan''"
  "fst (workflow_docs u ! 3) = ''glowupplan''"
  "fst (workflow_docs u ! 4) = ''analysissummary''"
  using workflow_docs_eq [of u] by auto

text \<open>
  C7. The five inserts of \<^verbatim>\<open>run_workflow\<close> are issued in the order
  \<^verbatim>\<open>lookmaxxingdetail\<close>, \<^verbatim>\<open>physiqueplan\<close>, \<^verbatim>\<open>stylingplan\<close>, \<^verbatim>\<open>glowupplan\<close>,
  \<^verbatim>\<open>analysissummary\<close>, and nothing undoes them. When the lookup and the first \<open>j\<close>
  inserts succeed and the next insert raises (\<open>j\<close> from 0 to 4), the handler ends with
  that exception, whose message is the store's and says nothing of \<open>j\<close>; the first \<open>j\<close>
  collections have each gained their document, and the others are as before.
\<close>

theorem run_workflow_partial_failure:
  assumes "faults s = replicate (Suc j) None @ Some msg # rest" and "j < 5"
  shows "fst (run_workflow req s) = Inl (Exception msg)
       \<and> snd (run_workflow req s) =
           tick (persist (take j (workflow_docs (WorkflowRequest.user_id req))) (tick s))
       \<and> map fst (workflow_docs (WorkflowRequest.user_id req)) =
           [''lookmaxxingdetail'', ''physiqueplan'', ''stylingplan'', ''glowupplan'',
            ''analysissummary'']
       \<and> (\<forall>i < 5.
            colls (snd (run_workflow req s)) (fst (workflow_docs (WorkflowRequest.user_id req) ! i)) =
              (if i < j
               then colls s (fst (workflow_docs (WorkflowRequest.user_id req) ! i)) @
                      [(''_id'', VObjectId (next_id s + i)) #
                       snd (workflow_docs (WorkflowRequest.user_id req) ! i)]
               else colls s (fst (workflow_docs (WorkflowRequest.user_id req) ! i))))
       \<and> next_id (snd (run_workflow req s)) = next_id s + j"
proof -
  let ?ds = "workflow_docs (WorkflowRequest.user_id req)"
  from assms(1) have f: "store_fault s = None"
    and t: "faults (tick s) = replicate j None @ Some msg # rest"
    by (simp_all add: store_fault_def)
  from assms(2) have j: "j < length ?ds" by (simp add: workflow_docs_length)
  have run: "run_workflow req s = (Inl (Exception msg), tick (persist (take j ?ds) (tick s)))"
    by (simp add: run_workflow_eq [OF f] create_all_fails [OF t j])
  have d: "distinct (map fst (take j ?ds))"
    using workflow_docs_distinct [of "WorkflowRequest.user_id req"]
    by (simp add: take_map [symmetric] distinct_take)
  have c: "colls (snd (run_workflow req s)) (fst (?ds ! i)) =
              (if i < j
               then colls s (fst (?ds ! i)) @ [(''_id'', VObjectId (next_id s + i)) # snd (?ds ! i)]
               else colls s (fst (?ds ! i)))" if i: "i < 5" for i
  proof (cases "i < j")
    case True
    with j have "i < length (take j ?ds)" by simp
    from colls_persist_nth [OF d this, of "tick s"] True show ?thesis
      by (simp add: run)
  next
    case False
    have "fst (?ds ! i) \<notin> fst ` set (take j ?ds)"
    proof
      assume "fst (?ds ! i) \<in> fst ` set (take j ?ds)"
      then have "map fst ?ds ! i \<in> set (take j (map fst ?ds))"
        using i by (simp add: take_map workflow_docs_length)
      then obtain k where k: "k < j" "take j (map fst ?ds) ! k = map fst ?ds ! i"
        using j by (auto simp: in_set_conv_nth)
      then have "map fst ?ds ! k = map fst ?ds ! i" by simp
      moreover have "k < length (map fst ?ds)" "i < length (map fst ?ds)"
        using k(1) j i by (simp_all add: workflow_docs_length)
      ultimately have "k = i"
        using nth_eq_iff_index_eq [OF workflow_docs_distinct [of "WorkflowRequest.user_id req"]]
        by blast
      with k(1) False show False by simp
    qed
    from colls_persist_other [OF this, of "tick s"] False show ?thesis
      by (simp add: run)
  qed
  have n: "next_id (snd (run_workflow req s)) = next_id s + j"
    using j by (simp add: run next_id_persist)
  from run c n workflow_docs_collections [of "WorkflowRequest.user_id req"]
  show ?thesis by simp
qed

theorem run_workflow_partial_failure_witness:
  "faults (empty_store [None, None, None, Some ''timeout'']) =
      replicate (Suc 2) None @ Some ''timeout'' # []
   \<and> fst (run_workflow \<lparr>WorkflowRequest.user_id = ''u1''\<rparr>
        (empty_store [None, None, None, Some ''timeout''])) = Inl (Exception ''timeout'')
   \<and> length (colls (snd (run_workflow \<lparr>WorkflowRequest.user_id = ''u1''\<rparr>
        (empty_store [None, None, None, Some ''timeout'']))) ''lookmaxxingdetail'') = 1
   \<and> length (colls (snd (run_workflow \<lparr>WorkflowRequest.user_id = ''u1''\<rparr>
        (empty_store [None, None, None, Some ''timeout'']))) ''physiqueplan'') = 1
   \<and> colls (snd (run_workflow \<lparr>WorkflowRequest.user_id = ''u1''\<rparr>
        (empty_store [None, None, None, Some ''timeout'']))) ''stylingplan'' = []
   \<and> colls (snd (run_workflow \<lparr>WorkflowRequest.user_id = ''u1''\<rparr>
        (empty_store [None, None, None, Some ''timeout'']))) ''glowupplan'' = []
   \<and> colls (snd (run_workflow \<lparr>WorkflowRequest.user_id = ''u1''\<rparr>
        (empty_store [None, None, None, Some ''timeout'']))) ''analysissummary'' = []"
proof -
  let ?s = "empty_store [None, None, None, Some ''timeout'']"
  let ?req = "\<lparr>WorkflowRequest.user_id = ''u1''\<rparr>"
  have a: "faults ?s = replicate (Suc 2) None @ Some ''timeout'' # []"
    by (simp add: empty_store_def eval_nat_numeral)
  have b: "(2::nat) < 5" by simp
  have e: "colls ?s = (\<lambda>_. [])" by (simp add: empty_store_def)
  note w = run_workflow_partial_failure [OF a b, of ?req]
  note nth = workflow_docs_nth [of "''u1''"]
  have all: "\<forall>i < 5.
      colls (snd (run_workflow ?req ?s)) (fst (workflow_docs ''u1'' ! i)) =
        (if i < 2
         then colls ?s (fst (workflow_docs ''u1'' ! i)) @
                [(''_id'', VObjectId (next_id ?s + i)) # snd (workflow_docs ''u1'' ! i)]
         else colls ?s (fst (workflow_docs ''u1'' ! i)))"
    using w unfolding WorkflowRequest.select_convs by blast
  from all [THEN spec, of 0] have "colls (snd (run_workflow ?req ?s)) (fst (workflow_docs ''u1'' ! 0)) =
      colls ?s (fst (workflow_docs ''u1'' ! 0)) @
        [(''_id'', VObjectId (next_id ?s + 0)) # snd (workflow_docs ''u1'' ! 0)]"
    by simp
  then have c0: "length (colls (snd (run_workflow ?req ?s)) ''lookmaxxingdetail'') = 1"
    by (simp add: nth e)
  from all [THEN spec, of 1] have "colls (snd (run_workflow ?req ?s)) (fst (workflow_docs ''u1'' ! 1)) =
      colls ?s (fst (workflow_docs ''u1'' ! 1)) @
        [(''_id'', VObjectId (next_id ?s + 1)) # snd (workflow_docs ''u1'' ! 1)]"
    by simp
  then have c1: "length (colls (snd (run_workflow ?req ?s)) ''physiqueplan'') = 1"
    by (simp add: nth e)
  from all [THEN spec, of 2] have "colls (snd (run_workflow ?req ?s)) (fst (workflow_docs ''u1'' ! 2)) =
      (if (2::nat) < 2 then undefined else colls ?s (fst (workflow_docs ''u1'' ! 2)))"
    by simp
  then have c2: "colls (snd (run_workflow ?req ?s)) ''stylingplan'' = []"
    by (simp add: nth e)
  from all [THEN spec, of 3] have "colls (snd (run_workflow ?req ?s)) (fst (workflow_docs ''u1'' ! 3)) =
      (if (3::nat) < 2 then undefined else colls ?s (fst (workflow_docs ''u1'' ! 3)))"
    by simp
  then have c3: "colls (snd (run_workflow ?req ?s)) ''glowupplan'' = []"
    by (simp add: nth e)
  from all [THEN spec, of 4] have "colls (snd (run_workflow ?req ?s)) (fst (workflow_docs ''u1'' ! 4)) =
      (if (4::nat) < 2 then undefined else colls ?s (fst (workflow_docs ''u1'' ! 4)))"
    by simp
  then have c4: "colls (snd (run_workflow ?req ?s)) ''analysissummary'' = []"
    by (simp add: nth e)
  from w have "fst (run_workflow ?req ?s) = Inl (Exception ''timeout'')" by blast
  with a c0 c1 c2 c3 c4 show ?thesis by blast
qed

text \<open>
  C1, as the code has it. While the store answers, \<^verbatim>\<open>run_workflow\<close> takes the first
  stored input of the user in the store's order (the lookup asks for one document and
  imposes no order), or the bare record \<^verbatim>\<open>{"user_id": u}\<close> when there is none. Whichever
  it is, the four generators and the composer yield the documents of the bare record;
  the handler inserts the five, each into its collection, and returns them under the
  keys \<^verbatim>\<open>summary\<close>, \<^verbatim>\<open>face\<close>, \<^verbatim>\<open>physique\<close>, \<^verbatim>\<open>styling\<close> and \<^verbatim>\<open>glow\<close>. A user without
  any stored input is served like any other.
\<close>

theorem run_workflow_persists_and_returns:
  assumes "available 6 s"
  shows "workflow_base req s =
           (Inr (case find (\<lambda>d. map_of d ''user_id'' = Some (VStr (WorkflowRequest.user_id req)))
                        (colls s ''userinput'') of
                   None \<Rightarrow> [(''user_id'', VStr (WorkflowRequest.user_id req))]
                 | Some d \<Rightarrow> d), tick s)
       \<and> (\<exists>face phys style glow summary.
            make_face_analysis [(''user_id'', VStr (WorkflowRequest.user_id req))] = Inr face
          \<and> make_physique_plan [(''user_id'', VStr (WorkflowRequest.user_id req))] = Inr phys
          \<and> make_styling_plan [(''user_id'', VStr (WorkflowRequest.user_id req))] = Inr style
          \<and> make_glow_up [(''user_id'', VStr (WorkflowRequest.user_id req))] = Inr glow
          \<and> summary = make_summary face phys style
          \<and> workflow_docs (WorkflowRequest.user_id req) =
              [(''lookmaxxingdetail'', LookmaxxingDetail_dump face),
               (''physiqueplan'', PhysiquePlan_dump phys),
               (''stylingplan'', StylingPlan_dump style),
               (''glowupplan'', GlowUpPlan_dump glow),
               (''analysissummary'', AnalysisSummary_dump summary)]
          \<and> fst (run_workflow req s) =
              Inr [(''summary'', AnalysisSummary_dump summary),
                   (''face'', LookmaxxingDetail_dump face),
                   (''physique'', PhysiquePlan_dump phys),
                   (''styling'', StylingPlan_dump style),
                   (''glow'', GlowUpPlan_dump glow)])
       \<and> snd (run_workflow req s) = persist (workflow_docs (WorkflowRequest.user_id req)) (tick s)
       \<and> (\<forall>i < 5.
            colls (snd (run_workflow req s)) (fst (workflow_docs (WorkflowRequest.user_id req) ! i)) =
              colls s (fst (workflow_docs (WorkflowRequest.user_id req) ! i)) @
                [(''_id'', VObjectId (next_id s + i)) #
                 snd (workflow_docs (WorkflowRequest.user_id req) ! i)])
       \<and> (\<forall>c. c \<notin> set [''lookmaxxingdetail'', ''physiqueplan'', ''stylingplan'', ''glowupplan'',
                         ''analysissummary''] \<longrightarrow>
            colls (snd (run_workflow req s)) c = colls s c)"
proof -
  let ?u = "WorkflowRequest.user_id req"
  let ?ds = "workflow_docs ?u"
  from assms have f: "store_fault s = None" and a: "available (length ?ds) (tick s)"
    by (simp_all add: eval_nat_numeral available_Suc workflow_docs_length)
  have run: "run_workflow req s =
      (Inr [(''summary'', snd (?ds ! 4)), (''face'', snd (?ds ! 0)), (''physique'', snd (?ds ! 1)),
            (''styling'', snd (?ds ! 2)), (''glow'', snd (?ds ! 3))], persist ?ds (tick s))"
    by (simp add: run_workflow_eq [OF f] create_all_ok [OF a])
  have gens: "\<exists>face phys style glow summary.
            make_face_analysis [(''user_id'', VStr ?u)] = Inr face
          \<and> make_physique_plan [(''user_id'', VStr ?u)] = Inr phys
          \<and> make_styling_plan [(''user_id'', VStr ?u)] = Inr style
          \<and> make_glow_up [(''user_id'', VStr ?u)] = Inr glow
          \<and> summary = make_summary face phys style
          \<and> ?ds =
              [(''lookmaxxingdetail'', LookmaxxingDetail_dump face),
               (''physiqueplan'', PhysiquePlan_dump phys),
               (''stylingplan'', StylingPlan_dump style),
               (''glowupplan'', GlowUpPlan_dump glow),
               (''analysissummary'', AnalysisSummary_dump summary)]"
    by (simp add: workflow_docs_def make_face_analysis_def make_physique_plan_def
        make_styling_plan_def make_glow_up_def get_user_id_def)
  then obtain face phys style glow summary where
    g: "make_face_analysis [(''user_id'', VStr ?u)] = Inr face"
       "make_physique_plan [(''user_id'', VStr ?u)] = Inr phys"
       "make_styling_plan [(''user_id'', VStr ?u)] = Inr style"
       "make_glow_up [(''user_id'', VStr ?u)] = Inr glow"
       "summary = make_summary face phys style"
    and ds: "?ds =
              [(''lookmaxxingdetail'', LookmaxxingDetail_dump face),
               (''physiqueplan'', PhysiquePlan_dump phys),
               (''stylingplan'', StylingPlan_dump style),
               (''glowupplan'', GlowUpPlan_dump glow),
               (''analysissummary'', AnalysisSummary_dump summary)]"
    by blast
  have resp: "fst (run_workflow req s) =
              Inr [(''summary'', AnalysisSummary_dump summary),
                   (''face'', LookmaxxingDetail_dump face),
                   (''physique'', PhysiquePlan_dump phys),
                   (''styling'', StylingPlan_dump style),
                   (''glow'', GlowUpPlan_dump glow)]"
    unfolding run by (simp add: ds)
  have c: "\<forall>i < 5. colls (snd (run_workflow req s)) (fst (?ds ! i)) =
              colls s (fst (?ds ! i)) @ [(''_id'', VObjectId (next_id s + i)) # snd (?ds ! i)]"
    using colls_persist_nth [OF workflow_docs_distinct, of _ ?u "tick s"]
    by (simp add: run workflow_docs_length)
  have o: "\<forall>c. c \<notin> set [''lookmaxxingdetail'', ''physiqueplan'', ''stylingplan'', ''glowupplan'',
                         ''analysissummary''] \<longrightarrow>
            colls (snd (run_workflow req s)) c = colls s c"
  proof (intro allI impI)
    fix c
    assume "c \<notin> set [''lookmaxxingdetail'', ''physiqueplan'', ''stylingplan'', ''glowupplan'',
                         ''analysissummary'']"
    then have "c \<notin> fst ` set ?ds"
      using workflow_docs_collections [of ?u] by (metis set_map)
    from colls_persist_other [OF this, of "tick s"]
    show "colls (snd (run_workflow req s)) c = colls s c"
      by (simp add: run)
  qed
  have r2: "snd (run_workflow req s) = persist ?ds (tick s)" by (simp add: run)
  have ex: "\<exists>face phys style glow summary.
            make_face_analysis [(''user_id'', VStr ?u)] = Inr face
          \<and> make_physique_plan [(''user_id'', VStr ?u)] = Inr phys
          \<and> make_styling_plan [(''user_id'', VStr ?u)] = Inr style
          \<and> make_glow_up [(''user_id'', VStr ?u)] = Inr glow
          \<and> summary = make_summary face phys style
          \<and> ?ds =
              [(''lookmaxxingdetail'', LookmaxxingDetail_dump face),
               (''physiqueplan'', PhysiquePlan_dump phys),
               (''stylingplan'', StylingPlan_dump style),
               (''glowupplan'', GlowUpPlan_dump glow),
               (''analysissummary'', AnalysisSummary_dump summary)]
          \<and> fst (run_workflow req s) =
              Inr [(''summary'', AnalysisSummary_dump summary),
                   (''face'', LookmaxxingDetail_dump face),
                   (''physique'', PhysiquePlan_dump phys),
                   (''styling'', StylingPlan_dump style),
                   (''glow'', GlowUpPlan_dump glow)]"
    using g ds resp by (intro exI conjI)
  show ?thesis
    using workflow_base_ok [OF f, of req] ex r2 c o by (intro conjI)
qed

theorem run_workflow_persists_and_returns_witness:
  "available 6 (empty_store [])
   \<and> workflow_base \<lparr>WorkflowRequest.user_id = ''u1''\<rparr> (empty_store [])
       = (Inr [(''user_id'', VStr ''u1'')], tick (empty_store []))
   \<and> fst (run_workflow \<lparr>WorkflowRequest.user_id = ''u1''\<rparr> (empty_store [])) =
       Inr [(''summary'', snd (workflow_docs ''u1'' ! 4)),
            (''face'', snd (workflow_docs ''u1'' ! 0)),
            (''physique'', snd (workflow_docs ''u1'' ! 1)),
            (''styling'', snd (workflow_docs ''u1'' ! 2)),
            (''glow'', snd (workflow_docs ''u1'' ! 3))]
   \<and> colls (snd (run_workflow \<lparr>WorkflowRequest.user_id = ''u1''\<rparr> (empty_store [])))
        ''analysissummary'' =
       [[(''_id'', VObjectId 4),
         (''user_id'', VStr ''u1''),
         (''face_summary'', VStr ''Face shape oval; groom: weekly exfoliation, SPF 50 daily''),
         (''physique_summary'', VStr ''Body athletic; posture: neck long, ribs down, glutes on''),
         (''style_summary'', VStr ''Colours: cream, black, light gold''),
         (''outfit_summary'',
          VStr ''Outfits: monochrome black smart-casual, cream knit + tapered chinos'')]]
   \<and> colls (snd (run_workflow \<lparr>WorkflowRequest.user_id = ''u1''\<rparr> (empty_store [])))
        ''user'' = []"
proof -
  let ?req = "\<lparr>WorkflowRequest.user_id = ''u1''\<rparr>"
  have a: "available 6 (empty_store [])"
    by (simp add: available_def empty_store_def)
  have e: "colls (empty_store []) = (\<lambda>_. [])" "next_id (empty_store []) = 0"
    by (simp_all add: empty_store_def)
  note w = run_workflow_persists_and_returns [OF a, of ?req, unfolded WorkflowRequest.select_convs]
  note wA = w [THEN conjunct1]
  note wB = w [THEN conjunct2, THEN conjunct1]
  note wD = w [THEN conjunct2, THEN conjunct2, THEN conjunct2, THEN conjunct1]
  note wE = w [THEN conjunct2, THEN conjunct2, THEN conjunct2, THEN conjunct2]
  have d4: "workflow_docs ''u1'' ! 4 = (''analysissummary'',
       [(''user_id'', VStr ''u1''),
         (''face_summary'', VStr ''Face shape oval; groom: weekly exfoliation, SPF 50 daily''),
         (''physique_summary'', VStr ''Body athletic; posture: neck long, ribs down, glutes on''),
         (''style_summary'', VStr ''Colours: cream, black, light gold''),
         (''outfit_summary'',
          VStr ''Outfits: monochrome black smart-casual, cream knit + tapered chinos'')])"
    by (simp add: workflow_docs_def make_face_analysis_def make_physique_plan_def
        make_styling_plan_def make_glow_up_def get_user_id_def make_summary_def
        AnalysisSummary_dump_def)
  from wA have b: "workflow_base ?req (empty_store [])
       = (Inr [(''user_id'', VStr ''u1'')], tick (empty_store []))"
    by (simp add: e)
  from wB obtain face phys style glow summary where
    ds: "workflow_docs ''u1'' =
              [(''lookmaxxingdetail'', LookmaxxingDetail_dump face),
               (''physiqueplan'', PhysiquePlan_dump phys),
               (''stylingplan'', StylingPlan_dump style),
               (''glowupplan'', GlowUpPlan_dump glow),
               (''analysissummary'', AnalysisSummary_dump summary)]"
    and r: "fst (run_workflow ?req (empty_store [])) =
              Inr [(''summary'', AnalysisSummary_dump summary),
                   (''face'', LookmaxxingDetail_dump face),
                   (''physique'', PhysiquePlan_dump phys),
                   (''styling'', StylingPlan_dump style),
                   (''glow'', GlowUpPlan_dump glow)]"
    by blast
  have r': "fst (run_workflow ?req (empty_store [])) =
       Inr [(''summary'', snd (workflow_docs ''u1'' ! 4)),
            (''face'', snd (workflow_docs ''u1'' ! 0)),
            (''physique'', snd (workflow_docs ''u1'' ! 1)),
            (''styling'', snd (workflow_docs ''u1'' ! 2)),
            (''glow'', snd (workflow_docs ''u1'' ! 3))]"
    unfolding r by (simp add: ds)
  from wD [THEN spec, of 4]
  have c4: "colls (snd (run_workflow ?req (empty_store []))) ''analysissummary'' =
       [[(''_id'', VObjectId 4),
         (''user_id'', VStr ''u1''),
         (''face_summary'', VStr ''Face shape oval; groom: weekly exfoliation, SPF 50 daily''),
         (''physique_summary'', VStr ''Body athletic; posture: neck long, ribs down, glutes on''),
         (''style_summary'', VStr ''Colours: cream, black, light gold''),
         (''outfit_summary'',
          VStr ''Outfits: monochrome black smart-casual, cream knit + tapered chinos'')]]"
    by (simp add: d4 e)
  from wE [THEN spec, of "''user''"]
  have cu: "colls (snd (run_workflow ?req (empty_store []))) ''user'' = []"
    by (simp add: e)
  from a b r' c4 cu show ?thesis by (intro conjI)
qed

lemma post_input_ok:
  "UserInput_validate d = Inr d \<Longrightarrow> store_fault s = None \<Longrightarrow>
     post_input d s =
       (Inr [(''input_id'', VStr (hex (next_id s)))],
        insert_one ''userinput'' (UserInput_dump d) (tick s))"
  by (simp add: post_input_def save_user_input_def create_document_ok)

text \<open>
  C1, as it is stated, has the handler look up the most recent input of the user. After
  two inputs of the same user, heights 170 and then 180, the lookup of the workflow
  yields the first one, not the most recent.
\<close>

theorem workflow_base_not_most_recent:
  "colls (snd (post_input
       \<lparr>UserInput.user_id = ''u1'', face_photo_url = None, height_cm = Some 180,
        weight_kg = None, age = None, goals = None, style_vibe = None\<rparr>
       (snd (post_input
          \<lparr>UserInput.user_id = ''u1'', face_photo_url = None, height_cm = Some 170,
           weight_kg = None, age = None, goals = None, style_vibe = None\<rparr>
          (empty_store []))))) ''userinput''
     = [[(''_id'', VObjectId 0), (''user_id'', VStr ''u1''), (''face_photo_url'', VNone),
         (''height_cm'', VInt 170), (''weight_kg'', VNone), (''age'', VNone),
         (''goals'', VNone), (''style_vibe'', VNone)],
        [(''_id'', VObjectId 1), (''user_id'', VStr ''u1''), (''face_photo_url'', VNone),
         (''height_cm'', VInt 180), (''weight_kg'', VNone), (''age'', VNone),
         (''goals'', VNone), (''style_vibe'', VNone)]]
   \<and> fst (workflow_base \<lparr>WorkflowRequest.user_id = ''u1''\<rparr>
       (snd (post_input
       \<lparr>UserInput.user_id = ''u1'', face_photo_url = None, height_cm = Some 180,
        weight_kg = None, age = None, goals = None, style_vibe = None\<rparr>
       (snd (post_input
          \<lparr>UserInput.user_id = ''u1'', face_photo_url = None, height_cm = Some 170,
           weight_kg = None, age = None, goals = None, style_vibe = None\<rparr>
          (empty_store []))))))
     = Inr [(''_id'', VObjectId 0), (''user_id'', VStr ''u1''), (''face_photo_url'', VNone),
         (''height_cm'', VInt 170), (''weight_kg'', VNone), (''age'', VNone),
         (''goals'', VNone), (''style_vibe'', VNone)]"
proof -
  let ?a = "\<lparr>UserInput.user_id = ''u1'', face_photo_url = None, height_cm = Some 170,
           weight_kg = None, age = None, goals = None, style_vibe = None\<rparr>"
  let ?b = "\<lparr>UserInput.user_id = ''u1'', face_photo_url = None, height_cm = Some 180,
        weight_kg = None, age = None, goals = None, style_vibe = None\<rparr>"
  let ?s1 = "insert_one ''userinput'' (UserInput_dump ?a) (tick (empty_store []))"
  let ?s2 = "insert_one ''userinput'' (UserInput_dump ?b) (tick ?s1)"
  have va: "UserInput_validate ?a = Inr ?a" and vb: "UserInput_validate ?b = Inr ?b"
    by (simp_all add: UserInput_validate_def UserInput_errors_def ge_le_def)
  have f0: "store_fault (empty_store []) = None"
    by (simp add: store_fault_def empty_store_def)
  have f1: "store_fault ?s1 = None"
    by (simp add: store_fault_def empty_store_def)
  have f2: "store_fault ?s2 = None"
    by (simp add: store_fault_def empty_store_def)
  have s1: "snd (post_input ?a (empty_store [])) = ?s1"
    using post_input_ok [OF va f0] by simp
  have s2: "snd (post_input ?b ?s1) = ?s2"
    using post_input_ok [OF vb f1] by simp
  have c: "colls ?s2 ''userinput''
     = [[(''_id'', VObjectId 0), (''user_id'', VStr ''u1''), (''face_photo_url'', VNone),
         (''height_cm'', VInt 170), (''weight_kg'', VNone), (''age'', VNone),
         (''goals'', VNone), (''style_vibe'', VNone)],
        [(''_id'', VObjectId 1), (''user_id'', VStr ''u1''), (''face_photo_url'', VNone),
         (''height_cm'', VInt 180), (''weight_kg'', VNone), (''age'', VNone),
         (''goals'', VNone), (''style_vibe'', VNone)]]"
    by (simp add: UserInput_dump_def opt_def empty_store_def)
  from workflow_base_ok [OF f2, of "\<lparr>WorkflowRequest.user_id = ''u1''\<rparr>"] c
  have "fst (workflow_base \<lparr>WorkflowRequest.user_id = ''u1''\<rparr> ?s2)
     = Inr [(''_id'', VObjectId 0), (''user_id'', VStr ''u1''), (''face_photo_url'', VNone),
         (''height_cm'', VInt 170), (''weight_kg'', VNone), (''age'', VNone),
         (''goals'', VNone), (''style_vibe'', VNone)]"
    by simp
  with c show ?thesis
    unfolding s1 s2 by (intro conjI)
qed

section \<open>Guest records and login\<close>

text \<open>
  C10. Guest login inserts without looking for the email, and login judges the password
  by the first record with the email alone. There is a reachable state of the store that
  holds a guest record and, after it, a signup record with the same email, in which the
  login with that email and the password of the signup answers 401: a signup passes its
  lookup, a guest login with the same email inserts its record, and the signup inserts
  its own.
\<close>

theorem login_unauthorized_behind_guest_record:
  "\<exists>s. reach s []
     \<and> colls s ''user'' =
         [[(''_id'', VObjectId 0), (''email'', VStr ''a@x.io''),
           (''password_hash'', VStr ''guest''), (''is_guest'', VBool True),
           (''plan'', VStr ''free'')],
          [(''_id'', VObjectId 1), (''email'', VStr ''a@x.io''),
           (''password_hash'', VStr ''hash:pw''), (''is_guest'', VBool False),
           (''plan'', VStr ''free'')]]
     \<and> fst (login \<lparr>LoginRequest.email = ''a@x.io'', password = ''pw''\<rparr> s)
         = Inl (HTTPException 401 ''Invalid credentials'')"
proof -
  let ?p = "\<lparr>SignupRequest.email = ''a@x.io'', password = ''pw''\<rparr>"
  let ?g = "\<lparr>GuestLoginRequest.email = ''a@x.io''\<rparr>"
  let ?q = "\<lparr>LoginRequest.email = ''a@x.io'', password = ''pw''\<rparr>"
  let ?s0 = "empty_store []"
  let ?s1 = "tick ?s0"
  let ?s2 = "insert_one ''user''
      (User_dump \<lparr>User.email = ''a@x.io'', password_hash = ''guest'', is_guest = True,
                  plan = ''free''\<rparr>) (tick ?s1)"
  let ?s3 = "insert_one ''user''
      (User_dump \<lparr>User.email = ''a@x.io'', password_hash = ''hash:pw'', is_guest = False,
                  plan = ''free''\<rparr>) (tick ?s2)"
  have f0: "store_fault ?s0 = None" and f1: "store_fault ?s1 = None"
    and f2: "store_fault ?s2 = None" and f3: "store_fault ?s3 = None"
    by (simp_all add: store_fault_def empty_store_def)
  have e0: "colls ?s0 = (\<lambda>_. [])" by (simp add: empty_store_def)
  have r0: "reach ?s0 []" by (rule reach.start)
  have "signup_lookup ?p ?s0 = (Inr (), ?s1)"
    by (simp add: signup_lookup_ok [OF f0] e0)
  from reach.signup_passed [OF r0 this] have r1: "reach ?s1 [?p]" .
  have "snd (guest_login ?g ?s1) = ?s2"
    by (simp add: guest_login_ok [OF f1])
  with reach.guest [OF r1, of ?g] have r2: "reach ?s2 [?p]" by simp
  have "snd (signup_insert ?p ?s2) = ?s3"
    by (simp add: signup_insert_ok [OF f2])
  with reach.signup_inserted [OF r2, of ?p] have r3: "reach ?s3 []" by simp
  have c: "colls ?s3 ''user'' =
         [[(''_id'', VObjectId 0), (''email'', VStr ''a@x.io''),
           (''password_hash'', VStr ''guest''), (''is_guest'', VBool True),
           (''plan'', VStr ''free'')],
          [(''_id'', VObjectId 1), (''email'', VStr ''a@x.io''),
           (''password_hash'', VStr ''hash:pw''), (''is_guest'', VBool False),
           (''plan'', VStr ''free'')]]"
    by (simp add: User_dump_def empty_store_def)
  have "fst (login ?q ?s3) = Inl (HTTPException 401 ''Invalid credentials'')"
    unfolding login_ok [OF f3] c by (simp add: dict_get_def)
  with r3 c show ?thesis by blast
qed

end
